theory Spec2Isabelle
  imports Complex_Main "HOL-Library.AList"
begin

section \<open>Python values and the builtins the engine relies on\<close>

text \<open>
  The engine stores JSON-like data in its state and pydantic models in step
  configurations. One datatype covers both: \<open>None\<close>, \<open>bool\<close>, \<open>int\<close>
  (unbounded), \<open>float\<close>, \<open>str\<close>, \<open>list\<close>, \<open>dict\<close> with string keys (an
  association list in insertion order) and a pydantic model. A model carries its class
  name, whether \<open>get_type_hints\<close> succeeds on the class, and its fields in declaration
  order; each field has its name, \<open>Some T\<close> when it is annotated \<open>Interpolated[T]\<close>
  (\<open>None\<close> for any other annotation) and its value.

  Floats are carried as reals: rounding, infinities and NaN are not represented.
  Strings are lists of 8-bit characters.
\<close>

type_synonym uuid = nat

datatype target = TStr | TInt | TFloat | TBool | TDict | TList | TOther

datatype pyval =
    PNone
  | PBool bool
  | PInt int
  | PFloat real
  | PStr string
  | PList "pyval list"
  | PDict "(string \<times> pyval) list"
  | PModel string bool "(string \<times> target option \<times> pyval) list"

text \<open>An exception is its class name and its message (\<open>str(e)\<close>).\<close>

datatype py_exception = PyExc string string

fun exception_type :: "py_exception \<Rightarrow> string" where
  "exception_type (PyExc t m) = t"

fun exception_str :: "py_exception \<Rightarrow> string" where
  "exception_str (PyExc t m) = m"

text \<open>
  Library code that is not part of the repository is passed as a parameter, so that
  nothing is fixed here about what it does character by character or number by number:
  \<^item> \<open>json.loads(s)\<close> and \<open>json.dumps(v)\<close>, which may raise;
  \<^item> \<open>s.strip()\<close>;
  \<^item> \<open>int(s)\<close> for a string \<open>s\<close>: the integer, or the message of the \<open>ValueError\<close> it
    raises (no other exception comes from \<open>int\<close> of a string);
  \<^item> \<open>float(v)\<close> for a value \<open>v\<close> other than \<open>None\<close>, which may raise;
  \<^item> \<open>str(v)\<close> for a value that is not a string, \<open>None\<close> or a bool, which may raise
    (an integer beyond the digit limit, an object whose \<open>__str__\<close> fails);
  \<^item> the rendering \<open>str(sorted(keys))\<close> of a set of strings;
  \<^item> the pydantic constructor \<open>cls(**values)\<close> with its validation.
\<close>

record pylib =
  json_loads :: "string \<Rightarrow> py_exception + pyval"
  json_dumps :: "pyval \<Rightarrow> py_exception + string"
  py_strip :: "string \<Rightarrow> string"
  py_int :: "string \<Rightarrow> string + int"
  py_float :: "pyval \<Rightarrow> py_exception + real"
  str_other :: "pyval \<Rightarrow> py_exception + string"
  repr_sorted :: "string set \<Rightarrow> string"
  construct :: "string \<Rightarrow> bool \<Rightarrow> (string \<times> target option \<times> pyval) list \<Rightarrow> py_exception + pyval"

text \<open>\<open>bool(v)\<close>: the truth value of a Python object.\<close>

fun truthy :: "pyval \<Rightarrow> bool" where
  "truthy PNone = False"
| "truthy (PBool b) = b"
| "truthy (PInt i) = (i \<noteq> 0)"
| "truthy (PFloat r) = (r \<noteq> 0)"
| "truthy (PStr s) = (s \<noteq> [])"
| "truthy (PList xs) = (xs \<noteq> [])"
| "truthy (PDict d) = (d \<noteq> [])"
| "truthy (PModel c h fs) = True"

text \<open>\<open>isinstance(v, str)\<close>, \<open>isinstance(v, list)\<close>, \<open>isinstance(v, dict)\<close>.\<close>

fun is_str :: "pyval \<Rightarrow> bool" where
  "is_str (PStr s) = True"
| "is_str v = False"

fun is_list :: "pyval \<Rightarrow> bool" where
  "is_list (PList xs) = True"
| "is_list v = False"

fun is_dict :: "pyval \<Rightarrow> bool" where
  "is_dict (PDict d) = True"
| "is_dict v = False"

text \<open>\<open>str.lower()\<close>, on the letters A to Z.\<close>

definition lower_char :: "char \<Rightarrow> char" where
  "lower_char c =
     (case map_of (zip ''ABCDEFGHIJKLMNOPQRSTUVWXYZ'' ''abcdefghijklmnopqrstuvwxyz'') c of
        None \<Rightarrow> c
      | Some l \<Rightarrow> l)"

definition lower :: "string \<Rightarrow> string" where
  "lower s = map lower_char s"

text \<open>
  The engine uses \<open>lower\<close> only to ask whether the result is one of \<open>"true"\<close>, \<open>"1"\<close>,
  \<open>"yes"\<close>.
\<close>

text \<open>\<open>s.split(".")\<close>: the pieces between the dots; never the empty list.\<close>

fun split_dot :: "string \<Rightarrow> string list" where
  "split_dot [] = [[]]"
| "split_dot (c # cs) =
     (if c = CHR ''.'' then [] # split_dot cs
      else (case split_dot cs of
              [] \<Rightarrow> [[c]]
            | w # ws \<Rightarrow> (c # w) # ws))"

text \<open>
  \<open>str(v)\<close>: a string is itself, \<open>None\<close> and the bools have their names, the rest is
  the library's.
\<close>

fun py_str :: "pylib \<Rightarrow> pyval \<Rightarrow> py_exception + string" where
  "py_str lib (PStr s) = Inr s"
| "py_str lib PNone = Inr ''None''"
| "py_str lib (PBool b) = Inr (if b then ''True'' else ''False'')"
| "py_str lib v = str_other lib v"

section \<open>State slots and the state container (core/state.py)\<close>

datatype StateType = ANY | TEXT | NUMBER | BOOLEAN | OBJECT | ARRAY

record StateSlot =
  slot_name :: string
  slot_type :: StateType
  slot_description :: "string option"

text \<open>
  \<^verbatim>\<open>
  def cast(self, value):
      if value is None:
          return None
      if self.type == StateType.TEXT:
          return str(value)
      elif self.type == StateType.NUMBER:
          if isinstance(value, str):
              try:
                  return int(value)
              except ValueError:
                  return float(value)
          return float(value)
      elif self.type == StateType.BOOLEAN:
          if isinstance(value, str):
              return value.lower() in ("true", "1", "yes")
          return bool(value)
      elif self.type == StateType.OBJECT:
          if isinstance(value, str):
              return json.loads(value)
          return value
      elif self.type == StateType.ARRAY:
          if isinstance(value, str):
              return json.loads(value)
          return value
      return value
  \<close>
  A raised exception is the left summand of the result.
\<close>

definition cast :: "pylib \<Rightarrow> StateSlot \<Rightarrow> pyval \<Rightarrow> py_exception + pyval" where
  "cast lib slot v =
     (if v = PNone then Inr PNone
      else case slot_type slot of
        TEXT \<Rightarrow> map_sum id PStr (py_str lib v)
      | NUMBER \<Rightarrow>
          (case v of
             PStr s \<Rightarrow>
               (case py_int lib s of
                  Inr i \<Rightarrow> Inr (PInt i)
                | Inl msg \<Rightarrow> map_sum id PFloat (py_float lib v))
           | _ \<Rightarrow> map_sum id PFloat (py_float lib v))
      | BOOLEAN \<Rightarrow>
          (case v of
             PStr s \<Rightarrow> Inr (PBool (lower s \<in> set [''true'', ''1'', ''yes'']))
           | _ \<Rightarrow> Inr (PBool (truthy v)))
      | OBJECT \<Rightarrow> (case v of PStr s \<Rightarrow> json_loads lib s | _ \<Rightarrow> Inr v)
      | ARRAY \<Rightarrow> (case v of PStr s \<Rightarrow> json_loads lib s | _ \<Rightarrow> Inr v)
      | ANY \<Rightarrow> Inr v)"

record StateContainer =
  sc_slots :: "(string \<times> StateSlot) list"
  sc_values :: "(string \<times> pyval) list"

text \<open>
  \<^verbatim>\<open>
  def set(self, name, value):
      if name in self.slots:
          value = self.slots[name].cast(value)
      self.values[name] = value
  \<close>
  The container is mutated in place; the model returns the new container, or the
  exception that \<open>cast\<close> raised (in which case nothing was stored).
\<close>

definition set_value :: "pylib \<Rightarrow> StateContainer \<Rightarrow> string \<Rightarrow> pyval \<Rightarrow> py_exception + StateContainer" where
  "set_value lib st name v =
     (case map_of (sc_slots st) name of
        Some slot \<Rightarrow>
          (case cast lib slot v of
             Inl e \<Rightarrow> Inl e
           | Inr v' \<Rightarrow> Inr (st\<lparr>sc_values := AList.update name v' (sc_values st)\<rparr>))
      | None \<Rightarrow> Inr (st\<lparr>sc_values := AList.update name v (sc_values st)\<rparr>))"

text \<open>\<open>self.values.get(name, default)\<close>.\<close>

definition get_value :: "StateContainer \<Rightarrow> string \<Rightarrow> pyval \<Rightarrow> pyval" where
  "get_value st name dflt = (case map_of (sc_values st) name of None \<Rightarrow> dflt | Some v \<Rightarrow> v)"

text \<open>
  \<^verbatim>\<open>
  def get_nested(self, path, default=None):
      parts = path.split(".")
      current = self.values
      for part in parts:
          if current is None:
              return default
          if isinstance(current, list):
              try:
                  index = int(part)
                  if 0 <= index < len(current):
                      current = current[index]
                  else:
                      return default
              except ValueError:
                  return default
          elif isinstance(current, dict):
              current = current.get(part)
              if current is None:
                  return default
          else:
              return default
      return current
  \<close>
  The loop over \<open>parts\<close> becomes a recursion that carries \<open>current\<close>.
\<close>

fun get_nested_loop :: "pylib \<Rightarrow> pyval \<Rightarrow> string list \<Rightarrow> pyval \<Rightarrow> pyval" where
  "get_nested_loop lib current [] dflt = current"
| "get_nested_loop lib PNone (part # parts) dflt = dflt"
| "get_nested_loop lib (PList xs) (part # parts) dflt =
     (case py_int lib part of
        Inl msg \<Rightarrow> dflt
      | Inr index \<Rightarrow>
          (if 0 \<le> index \<and> index < int (length xs)
           then get_nested_loop lib (xs ! nat index) parts dflt
           else dflt))"
| "get_nested_loop lib (PDict d) (part # parts) dflt =
     (case map_of d part of
        None \<Rightarrow> dflt
      | Some v \<Rightarrow> (if v = PNone then dflt else get_nested_loop lib v parts dflt))"
| "get_nested_loop lib current (part # parts) dflt = dflt"

definition get_nested :: "pylib \<Rightarrow> StateContainer \<Rightarrow> string \<Rightarrow> pyval \<Rightarrow> pyval" where
  "get_nested lib st path dflt =
     get_nested_loop lib (PDict (sc_values st)) (split_dot path) dflt"

section \<open>Template resolution (core/interpolation.py)\<close>

text \<open>
  \<^verbatim>\<open>REF_PATTERN = re.compile(r"\{\{([^}]+)\}\}")\<close>

  A match of the pattern at the head of a string is two opening braces, a non-empty run
  of characters other than the closing brace, and two closing braces. The run is the
  longest one: a shorter run would be followed by a character that is not a closing
  brace. \<open>match_ref\<close> returns the captured group and the text after the match.
\<close>

definition match_ref :: "string \<Rightarrow> (string \<times> string) option" where
  "match_ref s =
     (case s of
        a # b # rest \<Rightarrow>
          (if a = CHR 0x7B \<and> b = CHR 0x7B then
             (let body = takeWhile (\<lambda>c. c \<noteq> CHR 0x7D) rest;
                  after = dropWhile (\<lambda>c. c \<noteq> CHR 0x7D) rest
              in if body = [] then None
                 else (case after of
                         x # y # rest' \<Rightarrow>
                           (if x = CHR 0x7D \<and> y = CHR 0x7D then Some (body, rest') else None)
                       | _ \<Rightarrow> None))
           else None)
      | _ \<Rightarrow> None)"

text \<open>
  The scan that \<open>REF_PATTERN.sub\<close> and \<open>REF_PATTERN.finditer\<close> share: matches are
  searched from left to right and do not overlap; a position where the pattern does not
  match is passed over. The result lists the characters outside matches (\<open>Inl\<close>) and the
  captured groups (\<open>Inr\<close>) in order.
\<close>

function ref_scan :: "string \<Rightarrow> (char + string) list" where
  "ref_scan [] = []"
| "ref_scan (c # cs) =
     (case match_ref (c # cs) of
        Some (g, rest) \<Rightarrow> Inr g # ref_scan rest
      | None \<Rightarrow> Inl c # ref_scan cs)"
  by pat_completeness auto
termination
proof (relation "measure length")
  show "wf (measure length)" by simp
next
  fix c :: char and cs :: string and x2 :: "string \<times> string" and g rest :: string
  assume m: "match_ref (c # cs) = Some x2" and x2: "(g, rest) = x2"
  from m x2 have "length rest \<le> length (dropWhile (\<lambda>c. c \<noteq> CHR 0x7D) (tl cs))"
    by (auto simp: match_ref_def Let_def split: list.splits if_splits)
  also have "\<dots> \<le> length (tl cs)"
    by (rule length_dropWhile_le)
  also have "\<dots> < length (c # cs)"
    by simp
  finally show "(rest, c # cs) \<in> measure length"
    by simp
next
  fix c :: char and cs :: string
  show "(cs, c # cs) \<in> measure length"
    by simp
qed

declare ref_scan.simps [simp del]

text \<open>
  \<open>REF_PATTERN.sub(repl, s)\<close>: the replacement function is called on the matches from
  left to right and the results are joined with the text between the matches; the first
  call that raises ends the substitution with its exception.
\<close>

fun sub_items :: "(string \<Rightarrow> py_exception + string) \<Rightarrow> (char + string) list
    \<Rightarrow> py_exception + string" where
  "sub_items repl [] = Inr []"
| "sub_items repl (Inl c # items) = map_sum id (\<lambda>r. c # r) (sub_items repl items)"
| "sub_items repl (Inr g # items) =
     (case repl g of
        Inl e \<Rightarrow> Inl e
      | Inr x \<Rightarrow> map_sum id (\<lambda>r. x @ r) (sub_items repl items))"

definition ref_sub :: "(string \<Rightarrow> py_exception + string) \<Rightarrow> string \<Rightarrow> py_exception + string" where
  "ref_sub repl s = sub_items repl (ref_scan s)"

text \<open>The groups of \<open>REF_PATTERN.finditer(s)\<close>.\<close>

definition ref_groups :: "string \<Rightarrow> string list" where
  "ref_groups s = concat (map (case_sum (\<lambda>c. []) (\<lambda>g. [g])) (ref_scan s))"

text \<open>\<open>"{{" in s\<close>.\<close>

fun has_open :: "string \<Rightarrow> bool" where
  "has_open (a # b # cs) = ((a = CHR 0x7B \<and> b = CHR 0x7B) \<or> has_open (b # cs))"
| "has_open [a] = False"
| "has_open [] = False"

text \<open>
  \<^verbatim>\<open>
  def resolve_template(template, state):
      if not isinstance(template, str):
          return template

      def replace_ref(match):
          path = match.group(1).strip()
          value = state.get_nested(path)
          if value is None:
              return ""
          if isinstance(value, (dict, list)):
              return json.dumps(value)
          return str(value)

      return REF_PATTERN.sub(replace_ref, template)
  \<close>
\<close>

definition replace_ref :: "pylib \<Rightarrow> StateContainer \<Rightarrow> string \<Rightarrow> py_exception + string" where
  "replace_ref lib st g =
     (let path = py_strip lib g;
          v = get_nested lib st path PNone
      in if v = PNone then Inr []
         else if is_dict v \<or> is_list v then json_dumps lib v
         else py_str lib v)"

definition resolve_template :: "pylib \<Rightarrow> pyval \<Rightarrow> StateContainer \<Rightarrow> py_exception + pyval" where
  "resolve_template lib template st =
     (case template of
        PStr t \<Rightarrow> map_sum id PStr (ref_sub (replace_ref lib st) t)
      | _ \<Rightarrow> Inr template)"

text \<open>
  \<^verbatim>\<open>
  def cast_to_type(value, target_type):
      if target_type is str:
          return value
      elif target_type is int:
          return int(value) if value else 0
      elif target_type is float:
          return float(value) if value else 0.0
      elif target_type is bool:
          return value.lower() in ("true", "1", "yes") if value else False
      elif target_type in (dict, list):
          return json.loads(value) if value else (target_type())
      return value
  \<close>
  The value is the string that \<open>resolve_template\<close> returned.
\<close>

definition cast_to_type :: "pylib \<Rightarrow> string \<Rightarrow> target \<Rightarrow> py_exception + pyval" where
  "cast_to_type lib v target_type =
     (case target_type of
        TStr \<Rightarrow> Inr (PStr v)
      | TInt \<Rightarrow>
          (if v \<noteq> [] then
             (case py_int lib v of
                Inr i \<Rightarrow> Inr (PInt i)
              | Inl msg \<Rightarrow> Inl (PyExc ''ValueError'' msg))
           else Inr (PInt 0))
      | TFloat \<Rightarrow> (if v \<noteq> [] then map_sum id PFloat (py_float lib (PStr v)) else Inr (PFloat 0))
      | TBool \<Rightarrow> Inr (PBool (if v \<noteq> [] then lower v \<in> set [''true'', ''1'', ''yes''] else False))
      | TDict \<Rightarrow> (if v \<noteq> [] then json_loads lib v else Inr (PDict []))
      | TList \<Rightarrow> (if v \<noteq> [] then json_loads lib v else Inr (PList []))
      | TOther \<Rightarrow> Inr (PStr v))"

text \<open>
  \<^verbatim>\<open>
  def resolve_value(value, state, target_type):
      if isinstance(value, str) and "{{" in value:
          resolved = resolve_template(value, state)
          return cast_to_type(resolved, target_type)
      return value
  \<close>
\<close>

definition resolve_value :: "pylib \<Rightarrow> pyval \<Rightarrow> StateContainer \<Rightarrow> target \<Rightarrow> py_exception + pyval" where
  "resolve_value lib v st target_type =
     (case v of
        PStr s \<Rightarrow>
          (if has_open s then
             (case ref_sub (replace_ref lib st) s of
                Inl e \<Rightarrow> Inl e
              | Inr resolved \<Rightarrow> cast_to_type lib resolved target_type)
           else Inr v)
      | _ \<Rightarrow> Inr v)"

text \<open>
  \<^verbatim>\<open>
  def resolve_dict_values(d, state):
      result = {}
      for key, value in d.items():
          if isinstance(value, str) and "{{" in value:
              result[key] = resolve_template(value, state)
          elif isinstance(value, dict):
              result[key] = resolve_dict_values(value, state)
          else:
              result[key] = value
      return result
  \<close>
\<close>

text \<open>
  \<open>resolve_item\<close> is the branch that the dict loop and the list loop share: a string
  holding \<open>"{{"\<close> goes through \<open>resolve_template\<close>, another string is kept.
\<close>

definition resolve_item :: "pylib \<Rightarrow> string \<Rightarrow> StateContainer \<Rightarrow> py_exception + pyval" where
  "resolve_item lib s st = (if has_open s then resolve_template lib (PStr s) st else Inr (PStr s))"

fun resolve_dict_values :: "pylib \<Rightarrow> (string \<times> pyval) list \<Rightarrow> StateContainer
    \<Rightarrow> py_exception + (string \<times> pyval) list" where
  "resolve_dict_values lib [] st = Inr []"
| "resolve_dict_values lib ((k, PStr s) # d) st =
     (case resolve_item lib s st of
        Inl e \<Rightarrow> Inl e
      | Inr v' \<Rightarrow> map_sum id (\<lambda>d'. (k, v') # d') (resolve_dict_values lib d st))"
| "resolve_dict_values lib ((k, PDict inner) # d) st =
     (case resolve_dict_values lib inner st of
        Inl e \<Rightarrow> Inl e
      | Inr inner' \<Rightarrow> map_sum id (\<lambda>d'. (k, PDict inner') # d') (resolve_dict_values lib d st))"
| "resolve_dict_values lib ((k, v) # d) st =
     map_sum id (\<lambda>d'. (k, v) # d') (resolve_dict_values lib d st)"

text \<open>
  \<^verbatim>\<open>
  def resolve_config(config, state):
      try:
          hints = get_type_hints(config.__class__, include_extras=True)
      except Exception:
          return config
      resolved_values = {}
      for field_name in config.model_fields:
          value = getattr(config, field_name)
          annotation = hints.get(field_name)
          if annotation and is_interpolated_field(annotation):
              target_type = get_interpolated_target_type(annotation)
              resolved_values[field_name] = resolve_value(value, state, target_type)
          elif isinstance(value, dict):
              resolved_values[field_name] = resolve_dict_values(value, state)
          elif isinstance(value, list):
              resolved_list = []
              for item in value:
                  if isinstance(item, str) and "{{" in item:
                      resolved_list.append(resolve_template(item, state))
                  elif isinstance(item, BaseModel):
                      resolved_list.append(resolve_config(item, state))
                  else:
                      resolved_list.append(item)
              resolved_values[field_name] = resolved_list
          elif isinstance(value, BaseModel):
              resolved_values[field_name] = resolve_config(value, state)
          else:
              resolved_values[field_name] = value
      return config.__class__(**resolved_values)
  \<close>
  The first exception ends the walk. \<open>resolve_fields\<close> is the loop over the fields,
  \<open>resolve_items\<close> the loop over the items of a list field. A value that is not a model
  has no \<open>model_fields\<close>.
\<close>

fun resolve_config :: "pylib \<Rightarrow> pyval \<Rightarrow> StateContainer \<Rightarrow> py_exception + pyval"
  and resolve_fields :: "pylib \<Rightarrow> (string \<times> target option \<times> pyval) list \<Rightarrow> StateContainer
        \<Rightarrow> py_exception + (string \<times> target option \<times> pyval) list"
  and resolve_items :: "pylib \<Rightarrow> pyval list \<Rightarrow> StateContainer \<Rightarrow> py_exception + pyval list"
where
  "resolve_config lib (PModel cls hints fs) st =
     (if \<not> hints then Inr (PModel cls hints fs)
      else (case resolve_fields lib fs st of
              Inl e \<Rightarrow> Inl e
            | Inr fs' \<Rightarrow> construct lib cls hints fs'))"
| "resolve_config lib PNone st = Inl (PyExc ''AttributeError'' ''model_fields'')"
| "resolve_config lib (PBool b) st = Inl (PyExc ''AttributeError'' ''model_fields'')"
| "resolve_config lib (PInt i) st = Inl (PyExc ''AttributeError'' ''model_fields'')"
| "resolve_config lib (PFloat r) st = Inl (PyExc ''AttributeError'' ''model_fields'')"
| "resolve_config lib (PStr s) st = Inl (PyExc ''AttributeError'' ''model_fields'')"
| "resolve_config lib (PList xs) st = Inl (PyExc ''AttributeError'' ''model_fields'')"
| "resolve_config lib (PDict d) st = Inl (PyExc ''AttributeError'' ''model_fields'')"
| "resolve_fields lib [] st = Inr []"
| "resolve_fields lib ((n, Some t, v) # fs) st =
     (case resolve_value lib v st t of
        Inl e \<Rightarrow> Inl e
      | Inr v' \<Rightarrow> map_sum id (\<lambda>fs'. (n, Some t, v') # fs') (resolve_fields lib fs st))"
| "resolve_fields lib ((n, None, PDict d) # fs) st =
     (case resolve_dict_values lib d st of
        Inl e \<Rightarrow> Inl e
      | Inr d' \<Rightarrow> map_sum id (\<lambda>fs'. (n, None, PDict d') # fs') (resolve_fields lib fs st))"
| "resolve_fields lib ((n, None, PList xs) # fs) st =
     (case resolve_items lib xs st of
        Inl e \<Rightarrow> Inl e
      | Inr xs' \<Rightarrow> map_sum id (\<lambda>fs'. (n, None, PList xs') # fs') (resolve_fields lib fs st))"
| "resolve_fields lib ((n, None, PModel cls hints g) # fs) st =
     (case resolve_config lib (PModel cls hints g) st of
        Inl e \<Rightarrow> Inl e
      | Inr v' \<Rightarrow> map_sum id (\<lambda>fs'. (n, None, v') # fs') (resolve_fields lib fs st))"
| "resolve_fields lib ((n, None, v) # fs) st =
     map_sum id (\<lambda>fs'. (n, None, v) # fs') (resolve_fields lib fs st)"
| "resolve_items lib [] st = Inr []"
| "resolve_items lib (PStr s # xs) st =
     (case resolve_item lib s st of
        Inl e \<Rightarrow> Inl e
      | Inr v' \<Rightarrow> map_sum id (\<lambda>xs'. v' # xs') (resolve_items lib xs st))"
| "resolve_items lib (PModel cls hints g # xs) st =
     (case resolve_config lib (PModel cls hints g) st of
        Inl e \<Rightarrow> Inl e
      | Inr v' \<Rightarrow> map_sum id (\<lambda>xs'. v' # xs') (resolve_items lib xs st))"
| "resolve_items lib (x # xs) st = map_sum id (\<lambda>xs'. x # xs') (resolve_items lib xs st)"

text \<open>
  \<^verbatim>\<open>
  def extract_refs(config):
      refs = []
      try:
          hints = get_type_hints(config.__class__, include_extras=True)
      except Exception:
          return refs
      for field_name in config.model_fields:
          value = getattr(config, field_name)
          annotation = hints.get(field_name)
          if annotation and is_interpolated_field(annotation):
              if isinstance(value, str):
                  for match in REF_PATTERN.finditer(value):
                      refs.append((field_name, match.group(1).strip()))
          elif isinstance(value, dict):
              for v in value.values():
                  if isinstance(v, str):
                      for match in REF_PATTERN.finditer(v):
                          refs.append((field_name, match.group(1).strip()))
          elif isinstance(value, list):
              for item in value:
                  if isinstance(item, str):
                      for match in REF_PATTERN.finditer(item):
                          refs.append((field_name, match.group(1).strip()))
                  elif isinstance(item, BaseModel):
                      refs.extend(extract_refs(item))
          elif isinstance(value, BaseModel):
              refs.extend(extract_refs(value))
      return refs
  \<close>
\<close>

definition refs_of_str :: "pylib \<Rightarrow> string \<Rightarrow> string \<Rightarrow> (string \<times> string) list" where
  "refs_of_str lib field_name s = map (\<lambda>g. (field_name, py_strip lib g)) (ref_groups s)"

fun refs_of_dict :: "pylib \<Rightarrow> string \<Rightarrow> (string \<times> pyval) list \<Rightarrow> (string \<times> string) list" where
  "refs_of_dict lib field_name [] = []"
| "refs_of_dict lib field_name ((k, PStr s) # d) =
     refs_of_str lib field_name s @ refs_of_dict lib field_name d"
| "refs_of_dict lib field_name ((k, v) # d) = refs_of_dict lib field_name d"

fun extract_refs :: "pylib \<Rightarrow> pyval \<Rightarrow> (string \<times> string) list"
  and extract_fields :: "pylib \<Rightarrow> (string \<times> target option \<times> pyval) list \<Rightarrow> (string \<times> string) list"
  and extract_items :: "pylib \<Rightarrow> string \<Rightarrow> pyval list \<Rightarrow> (string \<times> string) list"
where
  "extract_refs lib (PModel cls hints fs) = (if \<not> hints then [] else extract_fields lib fs)"
| "extract_refs lib PNone = []"
| "extract_refs lib (PBool b) = []"
| "extract_refs lib (PInt i) = []"
| "extract_refs lib (PFloat r) = []"
| "extract_refs lib (PStr s) = []"
| "extract_refs lib (PList xs) = []"
| "extract_refs lib (PDict d) = []"
| "extract_fields lib [] = []"
| "extract_fields lib ((n, Some t, PStr s) # fs) = refs_of_str lib n s @ extract_fields lib fs"
| "extract_fields lib ((n, Some t, v) # fs) = extract_fields lib fs"
| "extract_fields lib ((n, None, PDict d) # fs) = refs_of_dict lib n d @ extract_fields lib fs"
| "extract_fields lib ((n, None, PList xs) # fs) = extract_items lib n xs @ extract_fields lib fs"
| "extract_fields lib ((n, None, PModel cls hints g) # fs) =
     extract_refs lib (PModel cls hints g) @ extract_fields lib fs"
| "extract_fields lib ((n, None, v) # fs) = extract_fields lib fs"
| "extract_items lib n [] = []"
| "extract_items lib n (PStr s # xs) = refs_of_str lib n s @ extract_items lib n xs"
| "extract_items lib n (PModel cls hints g # xs) =
     extract_refs lib (PModel cls hints g) @ extract_items lib n xs"
| "extract_items lib n (x # xs) = extract_items lib n xs"

section \<open>Steps, results, edges and flows (steps/base.py, flow/edge.py, flow/flow.py)\<close>

datatype StepRunStatus = SUCCESS | ERROR

datatype JoinMode = NO_WAIT | ALL_SUCCESS | ALL_DONE | FIRST_SUCCESS

datatype StepType =
    TRIGGER_WEBHOOK | TRIGGER_SCHEDULE | TRIGGER_EVENT
  | REQUEST | SET_STATE | CONDITIONAL | TRANSFORM | SUB_FLOW | DELAY | SWITCH
  | CONVERSATION_START | USER_MESSAGE | REPLY

fun step_type_value :: "StepType \<Rightarrow> string" where
  "step_type_value TRIGGER_WEBHOOK = ''trigger_webhook''"
| "step_type_value TRIGGER_SCHEDULE = ''trigger_schedule''"
| "step_type_value TRIGGER_EVENT = ''trigger_event''"
| "step_type_value REQUEST = ''request''"
| "step_type_value SET_STATE = ''set_state''"
| "step_type_value CONDITIONAL = ''conditional''"
| "step_type_value TRANSFORM = ''transform''"
| "step_type_value SUB_FLOW = ''sub_flow''"
| "step_type_value DELAY = ''delay''"
| "step_type_value SWITCH = ''switch''"
| "step_type_value CONVERSATION_START = ''conversation_start''"
| "step_type_value USER_MESSAGE = ''user_message''"
| "step_type_value REPLY = ''reply''"

record StepError =
  err_message :: string
  err_code :: "string option"
  err_details :: "(string \<times> pyval) list option"

record StepRunResult =
  step_id :: uuid
  status :: StepRunStatus
  fired_ports :: "string list"
  continue_without_waiting :: bool
  output_data :: "(string \<times> pyval) list option"
  error :: "StepError option"

text \<open>\<open>xs or alt\<close> for an optional list: \<open>None\<close> and the empty list are false.\<close>

fun list_or :: "'a list option \<Rightarrow> 'a list \<Rightarrow> 'a list" where
  "list_or None alt = alt"
| "list_or (Some []) alt = alt"
| "list_or (Some xs) alt = xs"

text \<open>
  \<^verbatim>\<open>
  @classmethod
  def failure(cls, step_id, message, code=None, details=None, fired_ports=None):
      return cls(
          step_id=step_id,
          status=StepRunStatus.ERROR,
          fired_ports=fired_ports or ["error"]
          if "error" in (fired_ports or [])
          else ["default"],
          error=StepError(message=message, code=code, details=details),
      )
  \<close>
  A conditional expression binds weaker than \<open>or\<close>: the argument is
  \<open>(fired_ports or ["error"]) if ("error" in (fired_ports or [])) else ["default"]\<close>.
\<close>

definition failure ::
  "uuid \<Rightarrow> string \<Rightarrow> string option \<Rightarrow> (string \<times> pyval) list option \<Rightarrow> string list option
     \<Rightarrow> StepRunResult" where
  "failure sid msg code details ports_arg =
     \<lparr> step_id = sid,
       status = ERROR,
       fired_ports =
         (if ''error'' \<in> set (list_or ports_arg []) then list_or ports_arg [''error'']
          else [''default'']),
       continue_without_waiting = False,
       output_data = None,
       error = Some \<lparr> err_message = msg, err_code = code, err_details = details \<rparr> \<rparr>"

text \<open>
  A step: its id, type tag, join mode, trigger flag, the current value of its \<open>ports\<close>
  property, the keys of the outputs its class declares, and its configuration. The body
  \<open>run\<close> is code of the step classes; the runner below takes what it returns or raises
  from the schedule of a run.
\<close>

record Step =
  sid :: uuid
  stype :: StepType
  join_mode :: JoinMode
  is_trigger :: bool
  ports :: "string list"
  outputs :: "string list"
  config :: pyval

record Edge =
  edge_id :: uuid
  source_step_id :: uuid
  source_port :: string
  target_step_id :: uuid
  target_port :: string

record Flow =
  flow_id :: uuid
  flow_name :: "string option"
  steps :: "Step list"
  edges :: "Edge list"

text \<open>
  \<open>_step_index = {step.id: step for step in self.steps}\<close>: of two steps with one id the
  later one is indexed. \<open>get_step\<close> reads the index.
\<close>

definition get_step :: "Flow \<Rightarrow> uuid \<Rightarrow> Step option" where
  "get_step flow i = map_of (rev (map (\<lambda>s. (sid s, s)) (steps flow))) i"

text \<open>
  \<^verbatim>\<open>
  def get_edges_from(self, step_id, port=None):
      edges = [e for e in self.edges if e.source_step_id == step_id]
      if port is not None:
          edges = [e for e in edges if e.source_port == port]
      return edges

  def get_edges_to(self, step_id):
      return [e for e in self.edges if e.target_step_id == step_id]
  \<close>
\<close>

definition get_edges_from :: "Flow \<Rightarrow> uuid \<Rightarrow> string option \<Rightarrow> Edge list" where
  "get_edges_from flow i port =
     (let es = filter (\<lambda>e. source_step_id e = i) (edges flow)
      in case port of None \<Rightarrow> es | Some p \<Rightarrow> filter (\<lambda>e. source_port e = p) es)"

definition get_edges_to :: "Flow \<Rightarrow> uuid \<Rightarrow> Edge list" where
  "get_edges_to flow i = filter (\<lambda>e. target_step_id e = i) (edges flow)"

definition get_trigger_steps :: "Flow \<Rightarrow> Step list" where
  "get_trigger_steps flow = filter is_trigger (steps flow)"

text \<open>
  \<^verbatim>\<open>
  def steps_before(self, step):
      visited = set()
      result = []
      queue = [e.source_step_id for e in self.get_edges_to(step.id)]
      while queue:
          step_id = queue.pop(0)
          if step_id in visited:
              continue
          visited.add(step_id)
          upstream_step = self.get_step(step_id)
          if upstream_step:
              result.append(upstream_step)
              queue.extend(e.source_step_id for e in self.get_edges_to(step_id))
      return result
  \<close>
  The loop ends because every round either shortens the queue or marks a new id, and
  the ids that can be marked are those of the queue and the sources of the edges.
\<close>

function steps_before_loop :: "Flow \<Rightarrow> uuid list \<Rightarrow> uuid set \<Rightarrow> Step list \<Rightarrow> Step list" where
  "steps_before_loop flow [] visited result = result"
| "steps_before_loop flow (i # queue) visited result =
     (if i \<in> visited then steps_before_loop flow queue visited result
      else (case get_step flow i of
              None \<Rightarrow> steps_before_loop flow queue (insert i visited) result
            | Some upstream_step \<Rightarrow>
                steps_before_loop flow
                  (queue @ map source_step_id (get_edges_to flow i))
                  (insert i visited)
                  (result @ [upstream_step])))"
  by pat_completeness auto
termination
proof (relation "measures
    [\<lambda>(flow, queue, visited, result).
        card ((set (map source_step_id (edges flow)) \<union> set queue) - visited),
     \<lambda>(flow, queue, visited, result). length queue]")
  show "wf (measures
    [\<lambda>(flow, queue, visited, result).
        card ((set (map source_step_id (edges flow)) \<union> set queue) - visited),
     \<lambda>(flow, queue, visited, result). length queue])"
    by simp
next
  fix flow :: Flow and i :: uuid and queue :: "uuid list" and visited :: "uuid set"
    and result :: "Step list"
  assume "i \<in> visited"
  then have "(set (map source_step_id (edges flow)) \<union> set queue) - visited
      = (set (map source_step_id (edges flow)) \<union> set (i # queue)) - visited"
    by auto
  then show "((flow, queue, visited, result), (flow, i # queue, visited, result)) \<in> measures
    [\<lambda>(flow, queue, visited, result).
        card ((set (map source_step_id (edges flow)) \<union> set queue) - visited),
     \<lambda>(flow, queue, visited, result). length queue]"
    by simp
next
  fix flow :: Flow and i :: uuid and queue :: "uuid list" and visited :: "uuid set"
    and result :: "Step list"
  assume nv: "i \<notin> visited"
  have fin: "finite ((set (map source_step_id (edges flow)) \<union> set (i # queue)) - visited)"
    by simp
  have "(set (map source_step_id (edges flow)) \<union> set queue) - insert i visited
      \<subset> (set (map source_step_id (edges flow)) \<union> set (i # queue)) - visited"
    using nv by auto
  then have "card ((set (map source_step_id (edges flow)) \<union> set queue) - insert i visited)
      < card ((set (map source_step_id (edges flow)) \<union> set (i # queue)) - visited)"
    using fin by (rule psubset_card_mono [rotated])
  then show "((flow, queue, insert i visited, result), (flow, i # queue, visited, result))
      \<in> measures
    [\<lambda>(flow, queue, visited, result).
        card ((set (map source_step_id (edges flow)) \<union> set queue) - visited),
     \<lambda>(flow, queue, visited, result). length queue]"
    by simp
next
  fix flow :: Flow and i :: uuid and queue :: "uuid list" and visited :: "uuid set"
    and result :: "Step list" and upstream_step :: Step
  assume nv: "i \<notin> visited"
  have fin: "finite ((set (map source_step_id (edges flow)) \<union> set (i # queue)) - visited)"
    by simp
  have "(set (map source_step_id (edges flow))
          \<union> set (queue @ map source_step_id (get_edges_to flow i))) - insert i visited
      \<subset> (set (map source_step_id (edges flow)) \<union> set (i # queue)) - visited"
    using nv by (auto simp: get_edges_to_def)
  then have "card ((set (map source_step_id (edges flow))
          \<union> set (queue @ map source_step_id (get_edges_to flow i))) - insert i visited)
      < card ((set (map source_step_id (edges flow)) \<union> set (i # queue)) - visited)"
    using fin by (rule psubset_card_mono [rotated])
  then show "((flow, queue @ map source_step_id (get_edges_to flow i), insert i visited,
        result @ [upstream_step]), (flow, i # queue, visited, result))
      \<in> measures
    [\<lambda>(flow, queue, visited, result).
        card ((set (map source_step_id (edges flow)) \<union> set queue) - visited),
     \<lambda>(flow, queue, visited, result). length queue]"
    by simp
qed

definition steps_before :: "Flow \<Rightarrow> Step \<Rightarrow> Step list" where
  "steps_before flow step =
     steps_before_loop flow (map source_step_id (get_edges_to flow (sid step))) {} []"

section \<open>Validation of references (validation/validator.py)\<close>

record ValidationError =
  ve_step_id :: uuid
  ve_field :: string
  ve_reference :: string
  ve_message :: string
  ve_level :: string

text \<open>\<open>getattr(config, name)\<close> where \<open>hasattr(config, name)\<close>: a field of a model.\<close>

fun model_attr :: "pyval \<Rightarrow> string \<Rightarrow> pyval option" where
  "model_attr (PModel cls hints fs) n = map_of (map (\<lambda>(k, a, v). (k, v)) fs) n"
| "model_attr v n = None"

text \<open>
  \<^verbatim>\<open>
  def get_available_keys_before(flow, step):
      keys = set()
      for upstream in flow.steps_before(step):
          for output in upstream.outputs():
              keys.add(output.key)
          if hasattr(upstream.config, "key") and upstream.config.key:
              keys.add(upstream.config.key)
      return keys
  \<close>
  The only configuration with a field \<open>key\<close> is that of the set-state step, where it is
  declared \<open>str\<close>; the model adds the key when it is a non-empty string.
\<close>

definition add_upstream_keys :: "Step \<Rightarrow> string set \<Rightarrow> string set" where
  "add_upstream_keys upstream keys =
     (let keys1 = fold insert (outputs upstream) keys
      in case model_attr (config upstream) ''key'' of
           Some (PStr k) \<Rightarrow> (if k \<noteq> [] then insert k keys1 else keys1)
         | _ \<Rightarrow> keys1)"

definition get_available_keys_before :: "Flow \<Rightarrow> Step \<Rightarrow> string set" where
  "get_available_keys_before flow step = fold add_upstream_keys (steps_before flow step) {}"

text \<open>
  \<^verbatim>\<open>
  def validate_flow(flow):
      errors = []
      for step in flow.steps:
          available_keys = get_available_keys_before(flow, step)
          if step.is_trigger:
              for output in step.outputs():
                  available_keys.add(output.key)
          refs = extract_refs(step.config)
          for field_name, ref in refs:
              root_key = ref.split(".")[0]
              if root_key not in available_keys:
                  errors.append(ValidationError(step_id=step.id, field=field_name,
                      reference=ref,
                      message=f"'{ref}' not found. Available: {sorted(available_keys)}"))
      return errors
  \<close>
  The level of a finding defaults to \<open>"error"\<close>.
\<close>

definition root_key :: "string \<Rightarrow> string" where
  "root_key ref = (case split_dot ref of [] \<Rightarrow> [] | r # rs \<Rightarrow> r)"

definition available_keys :: "Flow \<Rightarrow> Step \<Rightarrow> string set" where
  "available_keys flow step =
     (if is_trigger step then fold insert (outputs step) (get_available_keys_before flow step)
      else get_available_keys_before flow step)"

definition step_findings :: "pylib \<Rightarrow> Flow \<Rightarrow> Step \<Rightarrow> ValidationError list" where
  "step_findings lib flow step =
     map (\<lambda>(field_name, ref).
            \<lparr> ve_step_id = sid step,
              ve_field = field_name,
              ve_reference = ref,
              ve_message = [CHR 0x27] @ ref @ [CHR 0x27] @ '' not found. Available: ''
                             @ repr_sorted lib (available_keys flow step),
              ve_level = ''error'' \<rparr>)
         (filter (\<lambda>(field_name, ref). root_key ref \<notin> available_keys flow step)
            (extract_refs lib (config step)))"

definition validate_flow :: "pylib \<Rightarrow> Flow \<Rightarrow> ValidationError list" where
  "validate_flow lib flow = concat (map (step_findings lib flow) (steps flow))"

section \<open>The runner (flow/runner.py, events.py)\<close>

subsection \<open>Join tracker\<close>

record JoinTracker =
  arrivals :: "(uuid \<times> StepRunResult) list"

text \<open>\<open>self.arrivals[edge.source_step_id] = result\<close>\<close>

definition record_arrival :: "JoinTracker \<Rightarrow> StepRunResult \<Rightarrow> Edge \<Rightarrow> JoinTracker" where
  "record_arrival tracker result edge =
     tracker\<lparr>arrivals := AList.update (source_step_id edge) result (arrivals tracker)\<rparr>"

text \<open>
  \<^verbatim>\<open>
  def is_ready(self, join_mode, incoming_edges):
      expected_sources = {e.source_step_id for e in incoming_edges}
      arrived_sources = set(self.arrivals.keys())
      if join_mode == JoinMode.NO_WAIT:
          return len(self.arrivals) > 0
      elif join_mode == JoinMode.ALL_SUCCESS:
          if arrived_sources != expected_sources:
              return False
          return all(r.status == StepRunStatus.SUCCESS for r in self.arrivals.values())
      elif join_mode == JoinMode.ALL_DONE:
          return arrived_sources == expected_sources
      elif join_mode == JoinMode.FIRST_SUCCESS:
          return any(r.status == StepRunStatus.SUCCESS for r in self.arrivals.values())
      return False
  \<close>
\<close>

definition is_ready :: "JoinTracker \<Rightarrow> JoinMode \<Rightarrow> Edge list \<Rightarrow> bool" where
  "is_ready tracker mode incoming_edges =
     (let expected_sources = set (map source_step_id incoming_edges);
          arrived_sources = set (map fst (arrivals tracker))
      in case mode of
           NO_WAIT \<Rightarrow> length (arrivals tracker) > 0
         | ALL_SUCCESS \<Rightarrow>
             (if arrived_sources \<noteq> expected_sources then False
              else list_all (\<lambda>r. status r = SUCCESS) (map snd (arrivals tracker)))
         | ALL_DONE \<Rightarrow> arrived_sources = expected_sources
         | FIRST_SUCCESS \<Rightarrow> list_ex (\<lambda>r. status r = SUCCESS) (map snd (arrivals tracker)))"

subsection \<open>Running one step\<close>

text \<open>
  \<^verbatim>\<open>
  async def execute_step(step, state, resolved_config):
      try:
          return await step.run(state, resolved_config)
      except Exception as e:
          return StepRunResult.failure(
              step_id=step.id,
              message=f"Step execution failed: {e}",
              code="EXECUTION_ERROR",
              details={"exception_type": type(e).__name__},
          )
  \<close>
  The outcome of the body is the result it returns (\<open>Inr\<close>) or the exception it raises
  (\<open>Inl\<close>).
\<close>

definition execute_step :: "Step \<Rightarrow> py_exception + StepRunResult \<Rightarrow> StepRunResult" where
  "execute_step step outcome =
     (case outcome of
        Inr result \<Rightarrow> result
      | Inl e \<Rightarrow>
          failure (sid step) (''Step execution failed: '' @ exception_str e)
            (Some ''EXECUTION_ERROR'')
            (Some [(''exception_type'', PStr (exception_type e))])
            None)"

subsection \<open>Events\<close>

text \<open>
  The events carry the run id and their fields; the wall-clock timestamp is left out.
  \<open>StepCompleted\<close> has the step id, the result, \<open>duration_ms\<close> and the optional state
  snapshot.
\<close>

datatype Event =
    FlowStarted uuid "string option"
  | StepStarted uuid uuid string
  | StepCompleted uuid uuid StepRunResult real "(string \<times> pyval) list option"
  | FlowCompleted uuid string

subsection \<open>The scheduling loop\<close>

text \<open>
  The driver owns \<open>pending\<close> (a set, kept as a list without repetition in insertion
  order), \<open>running\<close> (step id to task; a task is the step and its resolved
  configuration), \<open>join_trackers\<close> (a \<open>defaultdict\<close>: every id has a tracker, empty
  until something is recorded), \<open>results\<close>, \<open>step_start_times\<close>, the events yielded so
  far and the shared state container. Two counters belong to the model only: how often
  \<open>time.perf_counter()\<close> has been read and how many rounds of the loop have begun.
\<close>

record RunState =
  pending :: "uuid list"
  running :: "(uuid \<times> Step \<times> pyval) list"
  join_trackers :: "uuid \<Rightarrow> JoinTracker"
  results :: "StepRunResult list"
  step_start_times :: "(uuid \<times> real) list"
  events :: "Event list"
  state :: StateContainer
  clock_reads :: nat
  rounds :: nat

text \<open>
  What the driver does not decide: the id \<open>uuid4()\<close> gives the run, the successive
  readings of \<open>time.perf_counter()\<close>, and the order in which \<open>list(pending)\<close> lists the
  set in each round.
\<close>

record RunEnv =
  run_id :: uuid
  clock :: "nat \<Rightarrow> real"
  pending_order :: "nat \<Rightarrow> uuid list \<Rightarrow> uuid list"

text \<open>
  What \<open>await asyncio.wait(running.values(), return_when=FIRST_COMPLETED)\<close> brings back:
  the tasks that are done, each with the outcome of its step body, in the order the
  loop \<open>for task in done\<close> visits them, and the shared state as the step bodies left it.
  Step bodies run only while the driver is suspended here.
\<close>

record WaitOutcome =
  done_tasks :: "(uuid \<times> (py_exception + StepRunResult)) list"
  state_after :: StateContainer

definition list_pending :: "RunEnv \<Rightarrow> RunState \<Rightarrow> uuid list" where
  "list_pending env d =
     (let xs = pending_order env (rounds d) (pending d)
      in if distinct xs \<and> set xs = set (pending d) then xs else pending d)"

text \<open>
  \<^verbatim>\<open>
  steps_to_launch = []
  for step_id in list(pending):
      step = flow.get_step(step_id)
      if step is None:
          pending.discard(step_id)
          continue
      incoming_edges = flow.get_edges_to(step_id)
      if incoming_edges and step.join_mode != JoinMode.NO_WAIT:
          tracker = join_trackers[step_id]
          if not tracker.is_ready(step.join_mode, incoming_edges):
              continue
      steps_to_launch.append(step_id)
  \<close>
  \<open>select_steps\<close> returns the driver state and \<open>steps_to_launch\<close>.
\<close>

fun select_steps :: "Flow \<Rightarrow> uuid list \<Rightarrow> RunState \<times> uuid list \<Rightarrow> RunState \<times> uuid list" where
  "select_steps flow [] (d, steps_to_launch) = (d, steps_to_launch)"
| "select_steps flow (i # rest) (d, steps_to_launch) =
     (case get_step flow i of
        None \<Rightarrow> select_steps flow rest (d\<lparr>pending := removeAll i (pending d)\<rparr>, steps_to_launch)
      | Some step \<Rightarrow>
          (let incoming_edges = get_edges_to flow i
           in if incoming_edges \<noteq> [] \<and> join_mode step \<noteq> NO_WAIT
                 \<and> \<not> is_ready (join_trackers d i) (join_mode step) incoming_edges
              then select_steps flow rest (d, steps_to_launch)
              else select_steps flow rest (d, steps_to_launch @ [i])))"

text \<open>
  \<^verbatim>\<open>
  for step_id in steps_to_launch:
      pending.discard(step_id)
      step = flow.get_step(step_id)
      if step is None:
          continue
      yield StepStarted(run_id=run_id, step_id=step_id, step_type=step.type.value)
      try:
          resolved_config = resolve_config(step.config, state)
      except Exception as e:
          result = StepRunResult.failure(
              step_id=step_id,
              message=f"Config resolution failed: {e}",
              code="CONFIG_RESOLUTION_ERROR",
          )
          results.append(result)
          yield StepCompleted(run_id=run_id, step_id=step_id, result=result, duration_ms=0)
          continue
      step_start_times[step_id] = time.perf_counter()
      task = asyncio.create_task(execute_step(step, state, resolved_config),
                                 name=str(step_id))
      running[step_id] = task
  \<close>
\<close>

definition launch_step :: "Flow \<Rightarrow> pylib \<Rightarrow> RunEnv \<Rightarrow> RunState \<Rightarrow> uuid \<Rightarrow> RunState" where
  "launch_step flow lib env d i =
     (let d1 = d\<lparr>pending := removeAll i (pending d)\<rparr>
      in case get_step flow i of
           None \<Rightarrow> d1
         | Some step \<Rightarrow>
             (let d2 = d1\<lparr>events := events d1
                            @ [StepStarted (run_id env) i (step_type_value (stype step))]\<rparr>
              in case resolve_config lib (config step) (state d2) of
                   Inl e \<Rightarrow>
                     (let result = failure i (''Config resolution failed: '' @ exception_str e)
                                     (Some ''CONFIG_RESOLUTION_ERROR'') None None
                      in d2\<lparr>results := results d2 @ [result],
                            events := events d2 @ [StepCompleted (run_id env) i result 0 None]\<rparr>)
                 | Inr resolved_config \<Rightarrow>
                     d2\<lparr>step_start_times :=
                          AList.update i (clock env (clock_reads d2)) (step_start_times d2),
                        clock_reads := Suc (clock_reads d2),
                        running := AList.update i (step, resolved_config) (running d2)\<rparr>))"

definition launch_steps :: "Flow \<Rightarrow> pylib \<Rightarrow> RunEnv \<Rightarrow> RunState \<Rightarrow> uuid list \<Rightarrow> RunState" where
  "launch_steps flow lib env d steps_to_launch =
     fold (\<lambda>i d'. launch_step flow lib env d' i) steps_to_launch d"

text \<open>The part of a round before \<open>if not running: break\<close>.\<close>

definition launch_phase :: "Flow \<Rightarrow> pylib \<Rightarrow> RunEnv \<Rightarrow> RunState \<Rightarrow> RunState" where
  "launch_phase flow lib env d =
     (let d0 = d\<lparr>rounds := Suc (rounds d)\<rparr>;
          (d1, steps_to_launch) = select_steps flow (list_pending env d) (d0, [])
      in launch_steps flow lib env d1 steps_to_launch)"

text \<open>
  \<^verbatim>\<open>
  for port in result.fired_ports:
      for edge in flow.get_edges_from(step_id, port):
          join_trackers[edge.target_step_id].record(result, edge)
          pending.add(edge.target_step_id)
  \<close>
\<close>

definition route_edge :: "StepRunResult \<Rightarrow> Edge \<Rightarrow> RunState \<Rightarrow> RunState" where
  "route_edge result edge d =
     d\<lparr>join_trackers :=
         (join_trackers d)
           (target_step_id edge :=
              record_arrival (join_trackers d (target_step_id edge)) result edge),
       pending :=
         (if target_step_id edge \<in> set (pending d) then pending d
          else pending d @ [target_step_id edge])\<rparr>"

definition routed_edges :: "Flow \<Rightarrow> uuid \<Rightarrow> StepRunResult \<Rightarrow> Edge list" where
  "routed_edges flow i result =
     concat (map (\<lambda>port. get_edges_from flow i (Some port)) (fired_ports result))"

definition route :: "Flow \<Rightarrow> uuid \<Rightarrow> StepRunResult \<Rightarrow> RunState \<Rightarrow> RunState" where
  "route flow i result d = fold (route_edge result) (routed_edges flow i result) d"

text \<open>
  \<^verbatim>\<open>
  for task in done:
      step_id = UUID(task.get_name())
      result = task.result()
      results.append(result)
      del running[step_id]
      start_time = step_start_times.pop(step_id, time.perf_counter())
      duration_ms = (time.perf_counter() - start_time) * 1000
      yield StepCompleted(run_id=run_id, step_id=step_id, result=result,
                          duration_ms=duration_ms, state_snapshot=state.values.copy())
      if result.continue_without_waiting:
          continue
      (routing, above)
  \<close>
  The default argument of \<open>pop\<close> is evaluated whether or not it is used, so the clock
  is read twice.
\<close>

definition complete_task ::
  "Flow \<Rightarrow> RunEnv \<Rightarrow> uuid \<times> (py_exception + StepRunResult) \<Rightarrow> RunState \<Rightarrow> RunState" where
  "complete_task flow env task d =
     (case map_of (running d) (fst task) of
        None \<Rightarrow> d
      | Some (step, resolved_config) \<Rightarrow>
          (let i = fst task;
               result = execute_step step (snd task);
               fallback = clock env (clock_reads d);
               start_time = (case map_of (step_start_times d) i of
                               None \<Rightarrow> fallback
                             | Some t \<Rightarrow> t);
               duration_ms = (clock env (Suc (clock_reads d)) - start_time) * 1000;
               d1 = d\<lparr>results := results d @ [result],
                      running := AList.delete i (running d),
                      step_start_times := AList.delete i (step_start_times d),
                      clock_reads := Suc (Suc (clock_reads d)),
                      events := events d
                        @ [StepCompleted (run_id env) i result duration_ms
                             (Some (sc_values (state d)))]\<rparr>
           in if continue_without_waiting result then d1 else route flow i result d1))"

text \<open>
  A wait returns at least one task, each task once, and only tasks of \<open>running\<close>.
\<close>

definition valid_wait :: "RunState \<Rightarrow> WaitOutcome \<Rightarrow> bool" where
  "valid_wait d w \<longleftrightarrow>
     done_tasks w \<noteq> [] \<and> distinct (map fst (done_tasks w))
       \<and> list_all (\<lambda>task. fst task \<in> set (map fst (running d))) (done_tasks w)"

definition wait_phase :: "Flow \<Rightarrow> RunEnv \<Rightarrow> RunState \<Rightarrow> WaitOutcome \<Rightarrow> RunState option" where
  "wait_phase flow env d w =
     (if valid_wait d w
      then Some (fold (complete_task flow env) (done_tasks w) (d\<lparr>state := state_after w\<rparr>))
      else None)"

text \<open>
  \<^verbatim>\<open>
  while pending or running:
      (select and launch)
      if not running:
          break
      done, _ = await asyncio.wait(running.values(), return_when=asyncio.FIRST_COMPLETED)
      (process the done tasks)
  \<close>
  The list of wait outcomes is the schedule of the run. The loop gives \<open>None\<close> when it
  has to wait and the schedule has nothing left, or what it has left is not a possible
  return of the wait: the run described by the schedule is not over.
\<close>

fun run_loop :: "Flow \<Rightarrow> pylib \<Rightarrow> RunEnv \<Rightarrow> RunState \<Rightarrow> WaitOutcome list \<Rightarrow> RunState option" where
  "run_loop flow lib env d [] =
     (if pending d = [] \<and> running d = [] then Some d
      else (let d1 = launch_phase flow lib env d
            in if running d1 = [] then Some d1 else None))"
| "run_loop flow lib env d (w # ws) =
     (if pending d = [] \<and> running d = [] then Some d
      else (let d1 = launch_phase flow lib env d
            in if running d1 = [] then Some d1
               else (case wait_phase flow env d1 w of
                       None \<Rightarrow> None
                     | Some d2 \<Rightarrow> run_loop flow lib env d2 ws)))"

text \<open>
  \<^verbatim>\<open>
  async def run_flow(flow, trigger_step_id, initial_state=None):
      run_id = uuid4()
      state = initial_state or StateContainer()
      pending = {trigger_step_id}
      running = {}
      join_trackers = defaultdict(JoinTracker)
      results = []
      step_start_times = {}
      yield FlowStarted(run_id=run_id, flow_name=flow.name)
      (the loop)
      final_status = (
          "succeeded"
          if all(r.status == StepRunStatus.SUCCESS for r in results)
          else "failed"
      )
      yield FlowCompleted(run_id=run_id, status=final_status)
  \<close>
  A state container is a pydantic model and therefore true, so \<open>initial_state or \<dots>\<close>
  is \<open>initial_state\<close> unless that is \<open>None\<close>. The result is the driver state at the end:
  its \<open>events\<close> are the stream that was yielded.
\<close>

definition initial_run_state :: "Flow \<Rightarrow> RunEnv \<Rightarrow> uuid \<Rightarrow> StateContainer option \<Rightarrow> RunState" where
  "initial_run_state flow env trigger_step_id initial_state =
     \<lparr> pending = [trigger_step_id],
       running = [],
       join_trackers = (\<lambda>i. \<lparr>arrivals = []\<rparr>),
       results = [],
       step_start_times = [],
       events = [FlowStarted (run_id env) (flow_name flow)],
       state = (case initial_state of
                  None \<Rightarrow> \<lparr>sc_slots = [], sc_values = []\<rparr>
                | Some st \<Rightarrow> st),
       clock_reads = 0,
       rounds = 0 \<rparr>"

definition final_status :: "StepRunResult list \<Rightarrow> string" where
  "final_status rs = (if list_all (\<lambda>r. status r = SUCCESS) rs then ''succeeded'' else ''failed'')"

definition run_flow ::
  "Flow \<Rightarrow> pylib \<Rightarrow> RunEnv \<Rightarrow> uuid \<Rightarrow> StateContainer option \<Rightarrow> WaitOutcome list \<Rightarrow> RunState option" where
  "run_flow flow lib env trigger_step_id initial_state schedule =
     (case run_loop flow lib env (initial_run_state flow env trigger_step_id initial_state) schedule of
        None \<Rightarrow> None
      | Some d \<Rightarrow> Some (d\<lparr>events := events d @ [FlowCompleted (run_id env) (final_status (results d))]\<rparr>))"

section \<open>What is said about a run\<close>

text \<open>
  The definitions of this section are not code of the engine; the theorems about the
  runner are stated with them.

  The trackers of a run hold arrivals only from sources of the incoming edges of their
  step.
\<close>

definition arrivals_from_incoming :: "Flow \<Rightarrow> RunState \<Rightarrow> bool" where
  "arrivals_from_incoming flow d \<longleftrightarrow>
     (\<forall>i. set (map fst (arrivals (join_trackers d i)))
            \<subseteq> set (map source_step_id (get_edges_to flow i)))"







section \<open>The specification's reading of the dotted path\<close>

text \<open>
  These two definitions follow the words of the specification, not the code; the
  theorems below compare \<open>get_nested\<close> with them. "Split on the dot; at each step
  traverse a dict by key or a list by integer index": \<open>spec_traverses v parts w\<close> says
  that walking down from \<open>v\<close> along \<open>parts\<close> succeeds at every segment and arrives at
  \<open>w\<close>. A key whose value is \<open>None\<close> counts as absent, and the integer parse of a
  segment is Python's \<open>int\<close>, which the library gives.
\<close>

inductive spec_traverses :: "pylib \<Rightarrow> pyval \<Rightarrow> string list \<Rightarrow> pyval \<Rightarrow> bool"
  for lib :: pylib
where
  at_end: "spec_traverses lib v [] v"
| by_key: "map_of d part = Some v \<Longrightarrow> v \<noteq> PNone \<Longrightarrow> spec_traverses lib v parts w
     \<Longrightarrow> spec_traverses lib (PDict d) (part # parts) w"
| by_index: "py_int lib part = Inr i \<Longrightarrow> 0 \<le> i \<Longrightarrow> i < int (length xs)
     \<Longrightarrow> spec_traverses lib (xs ! nat i) parts w
     \<Longrightarrow> spec_traverses lib (PList xs) (part # parts) w"

text \<open>The segments of a path, put together again with dots.\<close>

fun spec_join_dot :: "string list \<Rightarrow> string" where
  "spec_join_dot [] = []"
| "spec_join_dot [w] = w"
| "spec_join_dot (w # ws) = w @ CHR ''.'' # spec_join_dot ws"

section \<open>The specification's reading of the available keys\<close>

text \<open>
  These definitions follow the words of the specification. The upstream steps of a
  step are found by going backward over incoming edges, whatever their ports: the
  sources of the edges into the step, and the sources of the edges into any upstream
  id that names a step of the flow. The keys an upstream step contributes are its
  declared outputs and its configured \<open>key\<close>, when it is a non-empty string.
\<close>

inductive_set spec_upstream_ids :: "Flow \<Rightarrow> uuid \<Rightarrow> uuid set"
  for flow :: Flow and target :: uuid
where
  direct: "e \<in> set (edges flow) \<Longrightarrow> target_step_id e = target
     \<Longrightarrow> source_step_id e \<in> spec_upstream_ids flow target"
| via: "j \<in> spec_upstream_ids flow target \<Longrightarrow> get_step flow j = Some s
     \<Longrightarrow> e \<in> set (edges flow) \<Longrightarrow> target_step_id e = j
     \<Longrightarrow> source_step_id e \<in> spec_upstream_ids flow target"

definition spec_upstream_steps :: "Flow \<Rightarrow> Step \<Rightarrow> Step set" where
  "spec_upstream_steps flow step =
     {u. \<exists>i \<in> spec_upstream_ids flow (sid step). get_step flow i = Some u}"

definition spec_step_keys :: "Step \<Rightarrow> string set" where
  "spec_step_keys u =
     set (outputs u)
       \<union> (case model_attr (config u) ''key'' of
            Some (PStr k) \<Rightarrow> (if k = [] then {} else {k})
          | _ \<Rightarrow> {})"

section \<open>Example data\<close>

text \<open>
  A library instance for the examples. It knows only what the examples use: its JSON
  decoder the two empty containers, its JSON encoder the two empty containers and the
  refusal of a list that holds a model, its \<open>strip\<close> the blank (the character 0x20), its
  integer parser the numerals of one digit, its float parser one literal; its model
  constructor accepts every value. What it gives elsewhere is read by no example.
\<close>

fun sample_dumps :: "pyval \<Rightarrow> py_exception + string" where
  "sample_dumps (PDict []) = Inr ''{}''"
| "sample_dumps (PList []) = Inr ''[]''"
| "sample_dumps (PList (PModel cls hints fs # xs)) =
     Inl (PyExc ''TypeError'' (''Object of type '' @ cls @ '' is not JSON serializable''))"
| "sample_dumps v = Inr ''...''"

definition sample_strip :: "string \<Rightarrow> string" where
  "sample_strip s =
     rev (dropWhile (\<lambda>c. c = CHR 0x20) (rev (dropWhile (\<lambda>c. c = CHR 0x20) s)))"

definition sample_int :: "string \<Rightarrow> string + int" where
  "sample_int s =
     (case map_of (zip (map (\<lambda>c. [c]) ''0123456789'') [0, 1, 2, 3, 4, 5, 6, 7, 8, 9]) s of
        Some i \<Rightarrow> Inr i
      | None \<Rightarrow> Inl (''invalid literal for int() with base 10: '' @ [CHR 0x27] @ s @ [CHR 0x27]))"

definition sample_lib :: pylib where
  "sample_lib =
     \<lparr> json_loads = (\<lambda>s. if s = ''{}'' then Inr (PDict [])
                          else if s = ''[]'' then Inr (PList [])
                          else Inl (PyExc ''JSONDecodeError'' ''Expecting value'')),
       json_dumps = sample_dumps,
       py_strip = sample_strip,
       py_int = sample_int,
       py_float = (\<lambda>v. if v = PStr ''0.5'' then Inr (1 / 2)
                        else Inl (PyExc ''ValueError'' ''could not convert string to float'')),
       str_other = (\<lambda>v. Inr ''...''),
       repr_sorted = (\<lambda>keys. ''[...]''),
       construct = (\<lambda>cls hints fs. Inr (PModel cls hints fs)) \<rparr>"

definition boolean_slot :: StateSlot where
  "boolean_slot = \<lparr> slot_name = ''flag'', slot_type = BOOLEAN, slot_description = None \<rparr>"

definition number_slot :: StateSlot where
  "number_slot = \<lparr> slot_name = ''count'', slot_type = NUMBER, slot_description = None \<rparr>"

text \<open>
  The state of the specification's scenario S6, with two declared slots:
  \<open>user = {name: "Alice", profile: {email: "a@x"}}\<close>, \<open>items = [{name: "I1"}]\<close>.
\<close>

definition sample_state :: StateContainer where
  "sample_state =
     \<lparr> sc_slots = [(''flag'', boolean_slot), (''count'', number_slot)],
       sc_values =
         [(''user'', PDict [(''name'', PStr ''Alice''),
                            (''profile'', PDict [(''email'', PStr ''a@x'')])]),
          (''items'', PList [PDict [(''name'', PStr ''I1'')]])] \<rparr>"

text \<open>The same state with one more value, a list that holds a model.\<close>

definition opaque_state :: StateContainer where
  "opaque_state =
     sample_state\<lparr>sc_values :=
       sc_values sample_state @ [(''cfg'', PList [PModel ''WebhookConfig'' True []])]\<rparr>"

text \<open>
  An HTTP request step as steps/execution/request.py declares it: ports \<open>success\<close> and
  \<open>error\<close>, three outputs. Only \<open>url\<close> is annotated \<open>Interpolated[str]\<close> itself; the
  annotation of \<open>body\<close> is a union and that of \<open>headers\<close> a dict.
\<close>

definition request_step :: Step where
  "request_step =
     \<lparr> sid = 7,
       stype = REQUEST,
       join_mode = NO_WAIT,
       is_trigger = False,
       ports = [''success'', ''error''],
       outputs = [''response'', ''status_code'', ''response_headers''],
       config = PModel ''StepRequestConfig'' True
                  [(''url'', Some TStr, PStr ''https://api.example.com/endpoint''),
                   (''method'', None, PStr ''GET''),
                   (''headers'', None, PDict []),
                   (''body'', None, PNone),
                   (''timeout'', None, PInt 30)] \<rparr>"

text \<open>
  A webhook trigger, set-state steps and default edges, as the step classes declare
  them; the flow of the specification's scenario S5: the trigger fans out to two
  set-state steps, which both feed a set-state step with join mode ALL_SUCCESS.
\<close>

definition webhook_config :: pyval where
  "webhook_config = PModel ''TriggerWebhookConfig'' True
     [(''method'', None, PStr ''POST''), (''path'', None, PStr ''/t'')]"

definition set_state_config :: "string \<Rightarrow> string \<Rightarrow> pyval" where
  "set_state_config k v = PModel ''StepSetStateConfig'' True
     [(''key'', None, PStr k), (''value'', Some TStr, PStr v)]"

definition trigger_step :: Step where
  "trigger_step =
     \<lparr> sid = 1, stype = TRIGGER_WEBHOOK, join_mode = NO_WAIT, is_trigger = True,
       ports = [''default''], outputs = [''body'', ''headers'', ''method'', ''query''],
       config = webhook_config \<rparr>"

definition set_state_step :: "uuid \<Rightarrow> JoinMode \<Rightarrow> string \<Rightarrow> string \<Rightarrow> Step" where
  "set_state_step i mode k v =
     \<lparr> sid = i, stype = SET_STATE, join_mode = mode, is_trigger = False,
       ports = [''default''], outputs = [], config = set_state_config k v \<rparr>"

definition default_edge :: "uuid \<Rightarrow> uuid \<Rightarrow> uuid \<Rightarrow> Edge" where
  "default_edge e s t =
     \<lparr> edge_id = e, source_step_id = s, source_port = ''default'',
       target_step_id = t, target_port = ''default'' \<rparr>"

definition join_flow :: Flow where
  "join_flow =
     \<lparr> flow_id = 100, flow_name = Some ''join'',
       steps = [trigger_step,
                set_state_step 2 NO_WAIT ''a'' ''1'',
                set_state_step 3 NO_WAIT ''b'' ''{{body}}'',
                set_state_step 4 ALL_SUCCESS ''c'' ''{{a}}{{b}}''],
       edges = [default_edge 11 1 2, default_edge 12 1 3,
                default_edge 13 2 4, default_edge 14 3 4] \<rparr>"

text \<open>
  An environment (the clock counts seconds, \<open>list(pending)\<close> lists the set backwards), a
  successful result, a seeded state, and a schedule in which the trigger and the first
  branch succeed and the body of the second branch raises. The padded schedule has
  spare entries behind it.
\<close>

definition sample_env :: RunEnv where
  "sample_env = \<lparr> run_id = 500, clock = (\<lambda>n. real n), pending_order = (\<lambda>n xs. rev xs) \<rparr>"

definition ok_result :: "uuid \<Rightarrow> StepRunResult" where
  "ok_result i =
     \<lparr> step_id = i, status = SUCCESS, fired_ports = [''default''],
       continue_without_waiting = False, output_data = None, error = None \<rparr>"

definition seeded_state :: StateContainer where
  "seeded_state = \<lparr> sc_slots = [], sc_values = [(''body'', PStr ''hi'')] \<rparr>"

definition failing_schedule :: "WaitOutcome list" where
  "failing_schedule =
     [\<lparr> done_tasks = [(1, Inr (ok_result 1))], state_after = seeded_state \<rparr>,
      \<lparr> done_tasks = [(2, Inr (ok_result 2)), (3, Inl (PyExc ''RuntimeError'' ''boom''))],
        state_after = seeded_state\<lparr>sc_values := sc_values seeded_state @ [(''a'', PStr ''1'')]\<rparr> \<rparr>]"



text \<open>
  Tracker states for the join, and the driver state of the join flow after both
  branches have succeeded.
\<close>

definition two_arrivals :: JoinTracker where
  "two_arrivals = \<lparr>arrivals = [(2, ok_result 2), (3, ok_result 3)]\<rparr>"

definition one_arrival :: JoinTracker where
  "one_arrival = \<lparr>arrivals = [(2, ok_result 2)]\<rparr>"

definition joined_state :: RunState where
  "joined_state =
     \<lparr> pending = [4],
       running = [],
       join_trackers = (\<lambda>i. \<lparr>arrivals = []\<rparr>)
         (4 := \<lparr>arrivals = [(2, ok_result 2), (3, ok_result 3)]\<rparr>),
       results = [ok_result 1, ok_result 2, ok_result 3],
       step_start_times = [],
       events = [],
       state = seeded_state,
       clock_reads = 6,
       rounds = 2 \<rparr>"

text \<open>
  A step of a user-defined class whose configuration has a field annotated
  \<open>Interpolated[int]\<close>, followed by a set-state step.
\<close>

definition counter_step :: Step where
  "counter_step =
     \<lparr> sid = 5, stype = TRANSFORM, join_mode = NO_WAIT, is_trigger = False,
       ports = [''default''], outputs = [],
       config = PModel ''CounterConfig'' True [(''count'', Some TInt, PStr ''{{body}}'')] \<rparr>"

definition counter_flow :: Flow where
  "counter_flow =
     \<lparr> flow_id = 101, flow_name = None,
       steps = [counter_step, set_state_step 6 NO_WAIT ''n'' ''x''],
       edges = [default_edge 15 5 6] \<rparr>"

text \<open>
  A flow whose first set-state step has the empty key and whose second one refers to
  \<open>{{.x}}\<close>, a path with the empty root.
\<close>

definition empty_key_flow :: Flow where
  "empty_key_flow =
     \<lparr> flow_id = 102, flow_name = None,
       steps = [set_state_step 2 NO_WAIT [] ''v'', set_state_step 3 NO_WAIT ''y'' ''{{.x}}''],
       edges = [default_edge 16 2 3] \<rparr>"

section \<open>State slots and the state container: theorems\<close>

text \<open>
  Claim C10. For a slot of any declared type, \<open>cast(None)\<close> returns \<open>None\<close> and raises
  nothing; so \<open>StateContainer.set\<close> of \<open>None\<close> stores \<open>None\<close> under the name, whether
  or not a slot is declared for it, and leaves the slot definitions alone.
\<close>

theorem cast_none_stays_none:
  "cast lib slot PNone = Inr PNone
   \<and> set_value lib st name PNone
       = Inr (st\<lparr>sc_values := AList.update name PNone (sc_values st)\<rparr>)
   \<and> map_of (AList.update name PNone (sc_values st)) name = Some PNone"
  by (simp add: cast_def set_value_def update_conv' split: option.splits)

theorem cast_none_stays_none_witness:
  "cast sample_lib boolean_slot PNone = Inr PNone
   \<and> cast sample_lib number_slot PNone = Inr PNone
   \<and> set_value sample_lib sample_state ''flag'' PNone
       = Inr (sample_state\<lparr>sc_values := sc_values sample_state @ [(''flag'', PNone)]\<rparr>)"
  using cast_none_stays_none [of sample_lib boolean_slot sample_state "''flag''"]
    cast_none_stays_none [of sample_lib number_slot sample_state "''flag''"]
  by (simp add: sample_state_def)

text \<open>
  Claim C7 as stated fails twice: the string \<open>"no"\<close> is true as a Python object but is
  cast to \<open>False\<close>, and \<open>None\<close> is cast to \<open>None\<close>, which is not a bool.
\<close>

theorem cast_boolean_counterexample:
  "lower ''no'' \<notin> set [''true'', ''1'', ''yes'']
   \<and> cast sample_lib boolean_slot (PStr ''no'') \<noteq> Inr (PBool (truthy (PStr ''no'')))
   \<and> cast sample_lib boolean_slot PNone \<noteq> Inr (PBool (truthy PNone))"
  by (simp add: cast_def boolean_slot_def lower_def lower_char_def)

text \<open>
  Claim C7, amended. Through a slot of type BOOLEAN, \<open>None\<close> stays \<open>None\<close>; a string is
  cast to whether its lowercase form is one of \<open>"true"\<close>, \<open>"1"\<close>, \<open>"yes"\<close>; any other
  value is cast to its truth value. Nothing is raised, and the result of a value other
  than \<open>None\<close> is a bool.
\<close>

theorem cast_boolean:
  "slot_type slot = BOOLEAN \<Longrightarrow>
     (v = PNone \<longrightarrow> cast lib slot v = Inr PNone)
     \<and> (\<forall>s. v = PStr s \<longrightarrow>
           cast lib slot v = Inr (PBool (lower s \<in> set [''true'', ''1'', ''yes''])))
     \<and> (v \<noteq> PNone \<and> \<not> is_str v \<longrightarrow> cast lib slot v = Inr (PBool (truthy v)))"
  by (auto simp: cast_def split: pyval.splits)

theorem cast_boolean_witness:
  "slot_type boolean_slot = BOOLEAN
   \<and> cast sample_lib boolean_slot PNone = Inr PNone
   \<and> cast sample_lib boolean_slot (PStr ''YeS'') = Inr (PBool True)
   \<and> cast sample_lib boolean_slot (PStr ''false'') = Inr (PBool False)
   \<and> cast sample_lib boolean_slot (PInt 0) = Inr (PBool False)
   \<and> cast sample_lib boolean_slot (PList [PNone]) = Inr (PBool True)"
proof -
  have h: "slot_type boolean_slot = BOOLEAN"
    by (simp add: boolean_slot_def)
  show ?thesis
    using h cast_boolean [OF h, of PNone sample_lib]
      cast_boolean [OF h, of "PStr ''YeS''" sample_lib]
      cast_boolean [OF h, of "PStr ''false''" sample_lib]
      cast_boolean [OF h, of "PInt 0" sample_lib]
      cast_boolean [OF h, of "PList [PNone]" sample_lib]
    by (simp add: lower_def lower_char_def)
qed

subsection \<open>Dotted paths\<close>

lemma split_dot_nonempty: "split_dot s \<noteq> []"
  by (induction s) (auto split: list.splits)

lemma split_dot_join: "spec_join_dot (split_dot s) = s"
proof (induction s)
  case Nil
  show ?case by simp
next
  case (Cons c cs)
  obtain w ws where sp: "split_dot cs = w # ws"
    using split_dot_nonempty [of cs] by (cases "split_dot cs") auto
  show ?case
  proof (cases "c = CHR ''.''")
    case True
    with Cons sp show ?thesis by simp
  next
    case False
    with Cons sp show ?thesis by (cases ws) auto
  qed
qed

lemma split_dot_no_dot: "part \<in> set (split_dot s) \<Longrightarrow> CHR ''.'' \<notin> set part"
proof (induction s arbitrary: part)
  case Nil
  then show ?case by simp
next
  case (Cons c cs)
  obtain w ws where sp: "split_dot cs = w # ws"
    using split_dot_nonempty [of cs] by (cases "split_dot cs") auto
  from Cons.IH sp have w: "CHR ''.'' \<notin> set w"
    and ws: "\<And>p. p \<in> set ws \<Longrightarrow> CHR ''.'' \<notin> set p"
    by auto
  from Cons.prems sp w ws show ?case
    by (auto split: if_splits)
qed

lemma traverses_loop: "spec_traverses lib v parts w \<Longrightarrow> get_nested_loop lib v parts d = w"
  by (induction rule: spec_traverses.induct) auto

text \<open>
  Either the loop returns where the walk arrives, or no walk exists and the loop
  returns the default.
\<close>

lemma loop_traverses:
  "spec_traverses lib v parts (get_nested_loop lib v parts d)
   \<or> ((\<forall>w. \<not> spec_traverses lib v parts w) \<and> get_nested_loop lib v parts d = d)"
proof (induction lib v parts d rule: get_nested_loop.induct)
  case (1 lib current d)
  show ?case by (simp add: at_end)
next
  case (2 lib part parts d)
  show ?case by (auto elim: spec_traverses.cases)
next
  case (3 lib xs part parts d)
  show ?case
  proof (cases "py_int lib part")
    case (Inl msg)
    then show ?thesis by (auto elim: spec_traverses.cases)
  next
    case (Inr i)
    show ?thesis
    proof (cases "0 \<le> i \<and> i < int (length xs)")
      case False
      with Inr show ?thesis by (auto elim: spec_traverses.cases)
    next
      case True
      with Inr 3
      have "spec_traverses lib (xs ! nat i) parts (get_nested_loop lib (xs ! nat i) parts d)
        \<or> ((\<forall>w. \<not> spec_traverses lib (xs ! nat i) parts w)
             \<and> get_nested_loop lib (xs ! nat i) parts d = d)"
        by simp
      with Inr True show ?thesis
        by (auto intro: by_index elim: spec_traverses.cases)
    qed
  qed
next
  case (4 lib dct part parts d)
  show ?case
  proof (cases "map_of dct part")
    case None
    then show ?thesis by (auto elim: spec_traverses.cases)
  next
    case (Some v)
    show ?thesis
    proof (cases "v = PNone")
      case True
      with Some show ?thesis by (auto elim: spec_traverses.cases)
    next
      case False
      with Some 4
      have "spec_traverses lib v parts (get_nested_loop lib v parts d)
        \<or> ((\<forall>w. \<not> spec_traverses lib v parts w) \<and> get_nested_loop lib v parts d = d)"
        by simp
      with Some False show ?thesis
        by (auto intro: by_key elim: spec_traverses.cases)
    qed
  qed
qed (auto elim: spec_traverses.cases)

text \<open>
  Claim C6. \<open>get_nested(p, d)\<close> splits \<open>p\<close> at the dots (the segments contain no dot and
  joined with dots give \<open>p\<close> back) and walks from the values map: when the walk
  succeeds at every segment (a dict read by a key that is present and not \<open>None\<close>, a
  list read at the integer that \<open>int\<close> makes of the segment, within range) the value it
  arrives at is returned; in every other case (a key that is absent or holds \<open>None\<close>, a
  segment on which \<open>int\<close> raises, an index out of range, a value that is neither a dict
  nor a list) the default is returned. This holds whatever \<open>int\<close> does on strings.
\<close>

theorem get_nested_traverses:
  "spec_join_dot (split_dot p) = p
   \<and> (\<forall>part \<in> set (split_dot p). CHR ''.'' \<notin> set part)
   \<and> (\<forall>w. spec_traverses lib (PDict (sc_values st)) (split_dot p) w
          \<longrightarrow> get_nested lib st p d = w)
   \<and> ((\<forall>w. \<not> spec_traverses lib (PDict (sc_values st)) (split_dot p) w)
          \<longrightarrow> get_nested lib st p d = d)"
  using loop_traverses [of lib "PDict (sc_values st)" "split_dot p" d]
  by (auto simp: get_nested_def split_dot_join split_dot_no_dot dest: traverses_loop)

theorem get_nested_traverses_witness:
  "spec_traverses sample_lib (PDict (sc_values sample_state)) (split_dot ''items.0.name'')
     (PStr ''I1'')
   \<and> get_nested sample_lib sample_state ''items.0.name'' PNone = PStr ''I1''
   \<and> (\<forall>w. \<not> spec_traverses sample_lib (PDict (sc_values sample_state))
            (split_dot ''user.missing'') w)
   \<and> get_nested sample_lib sample_state ''user.missing'' (PStr ''default'') = PStr ''default''
   \<and> (\<forall>w. \<not> spec_traverses sample_lib (PDict (sc_values sample_state))
            (split_dot ''items.x'') w)
   \<and> get_nested sample_lib sample_state ''items.x'' (PStr ''default'') = PStr ''default''"
proof -
  have pos: "spec_traverses sample_lib (PDict (sc_values sample_state))
      (split_dot ''items.0.name'') (PStr ''I1'')"
    unfolding sample_state_def
    apply simp
    apply (rule by_key [where v = "PList [PDict [(''name'', PStr ''I1'')]]"], simp, simp)
    apply (rule by_index [where i = 0])
       apply (simp add: sample_lib_def sample_int_def)
      apply simp
     apply simp
    apply simp
    apply (rule by_key [where v = "PStr ''I1''"], simp, simp)
    apply (rule at_end)
    done
  have neg: "\<forall>w. \<not> spec_traverses sample_lib (PDict (sc_values sample_state))
      (split_dot ''user.missing'') w"
    unfolding sample_state_def
    by (auto elim!: spec_traverses.cases)
  have neg2: "\<forall>w. \<not> spec_traverses sample_lib (PDict (sc_values sample_state))
      (split_dot ''items.x'') w"
    unfolding sample_state_def
    by (auto simp: sample_lib_def sample_int_def elim!: spec_traverses.cases)
  from pos neg neg2
    get_nested_traverses [of "''items.0.name''" sample_lib sample_state PNone]
    get_nested_traverses [of "''user.missing''" sample_lib sample_state "PStr ''default''"]
    get_nested_traverses [of "''items.x''" sample_lib sample_state "PStr ''default''"]
  show ?thesis by blast
qed

section \<open>Template resolution: theorems\<close>

lemma take_until: "c \<notin> set g \<Longrightarrow> takeWhile (\<lambda>x. x \<noteq> c) (g @ c # r) = g"
  by (induction g) auto

lemma drop_until: "c \<notin> set g \<Longrightarrow> dropWhile (\<lambda>x. x \<noteq> c) (g @ c # r) = c # r"
  by (induction g) auto

lemma match_ref_iff:
  "match_ref s = Some (g, rest)
   \<longleftrightarrow> s = ''{{'' @ g @ ''}}'' @ rest \<and> g \<noteq> [] \<and> CHR ''}'' \<notin> set g"
proof
  assume m: "match_ref s = Some (g, rest)"
  then obtain r where s: "s = CHR ''{'' # CHR ''{'' # r"
    by (auto simp: match_ref_def split: list.splits if_splits)
  from m s have g: "g = takeWhile (\<lambda>c. c \<noteq> CHR ''}'') r" and ne: "g \<noteq> []"
    and d: "dropWhile (\<lambda>c. c \<noteq> CHR ''}'') r = CHR ''}'' # CHR ''}'' # rest"
    by (auto simp: match_ref_def Let_def split: list.splits if_splits)
  have "r = takeWhile (\<lambda>c. c \<noteq> CHR ''}'') r @ dropWhile (\<lambda>c. c \<noteq> CHR ''}'') r"
    by simp
  with g d have "r = g @ CHR ''}'' # CHR ''}'' # rest"
    by simp
  moreover from g have "CHR ''}'' \<notin> set g"
    by (auto dest: set_takeWhileD)
  ultimately show "s = ''{{'' @ g @ ''}}'' @ rest \<and> g \<noteq> [] \<and> CHR ''}'' \<notin> set g"
    using s ne by simp
next
  assume a: "s = ''{{'' @ g @ ''}}'' @ rest \<and> g \<noteq> [] \<and> CHR ''}'' \<notin> set g"
  then have t: "takeWhile (\<lambda>c. c \<noteq> CHR ''}'') (g @ CHR ''}'' # CHR ''}'' # rest) = g"
    by (simp add: take_until)
  from a have d: "dropWhile (\<lambda>c. c \<noteq> CHR ''}'') (g @ CHR ''}'' # CHR ''}'' # rest)
      = CHR ''}'' # CHR ''}'' # rest"
    by (simp add: drop_until)
  from a t d show "match_ref s = Some (g, rest)"
    by (simp add: match_ref_def)
qed

lemma match_ref_has_open: "match_ref s = Some x \<Longrightarrow> has_open s"
  by (auto simp: match_ref_def split: list.splits if_splits)

lemma has_open_iff: "has_open s \<longleftrightarrow> (\<exists>pre post. s = pre @ ''{{'' @ post)"
proof (induction s rule: has_open.induct)
  case (1 a b cs)
  show ?case
  proof
    assume "has_open (a # b # cs)"
    then consider "a = CHR ''{'' \<and> b = CHR ''{''" | "has_open (b # cs)"
      by auto
    then show "\<exists>pre post. a # b # cs = pre @ ''{{'' @ post"
    proof cases
      case 1
      then have "a # b # cs = [] @ ''{{'' @ cs" by simp
      then show ?thesis by blast
    next
      case 2
      with 1 obtain pre post where "b # cs = pre @ ''{{'' @ post" by blast
      then have "a # b # cs = (a # pre) @ ''{{'' @ post" by simp
      then show ?thesis by blast
    qed
  next
    assume "\<exists>pre post. a # b # cs = pre @ ''{{'' @ post"
    then obtain pre post where e: "a # b # cs = pre @ ''{{'' @ post" by blast
    show "has_open (a # b # cs)"
    proof (cases pre)
      case Nil
      with e show ?thesis by simp
    next
      case (Cons p ps)
      with e have "b # cs = ps @ ''{{'' @ post" by simp
      with 1 have "has_open (b # cs)" by blast
      then show ?thesis by simp
    qed
  qed
next
  case 3
  show ?case by simp
next
  case (2 v)
  show ?case
  proof
    assume "has_open [v]" then show "\<exists>pre post. [v] = pre @ ''{{'' @ post" by simp
  next
    assume "\<exists>pre post. [v] = pre @ ''{{'' @ post"
    then obtain pre post where "[v] = pre @ ''{{'' @ post" by blast
    then have "length [v] = length (pre @ ''{{'' @ post)" by simp
    then show "has_open [v]" by simp
  qed
qed

lemma ref_sub_Nil: "ref_sub f [] = Inr []"
  by (simp add: ref_sub_def ref_scan.simps)

lemma ref_sub_match:
  "match_ref (c # cs) = Some (g, rest)
   \<Longrightarrow> ref_sub f (c # cs)
       = (case f g of Inl e \<Rightarrow> Inl e | Inr x \<Rightarrow> map_sum id (\<lambda>r. x @ r) (ref_sub f rest))"
  by (simp add: ref_sub_def ref_scan.simps split: sum.splits)

lemma ref_sub_skip:
  "match_ref (c # cs) = None \<Longrightarrow> ref_sub f (c # cs) = map_sum id (\<lambda>r. c # r) (ref_sub f cs)"
  by (simp add: ref_sub_def ref_scan.simps)

lemma ref_sub_no_open: "\<not> has_open s \<Longrightarrow> ref_sub f s = Inr s"
proof (induction s rule: has_open.induct)
  case (1 a b cs)
  then have n: "\<not> has_open (a # b # cs)" and IH: "ref_sub f (b # cs) = Inr (b # cs)"
    by auto
  from n have "match_ref (a # b # cs) = None"
    by (cases "match_ref (a # b # cs)") (auto dest: match_ref_has_open)
  with IH show ?case by (simp add: ref_sub_skip)
next
  case 3
  show ?case by (rule ref_sub_Nil)
next
  case (2 a)
  have "match_ref [a] = None" by (simp add: match_ref_def)
  then show ?case by (simp add: ref_sub_skip ref_sub_Nil)
qed

lemma resolve_template_Inr:
  "resolve_template lib (PStr t) st = Inr (PStr r) \<longleftrightarrow> ref_sub (replace_ref lib st) t = Inr r"
  by (cases "ref_sub (replace_ref lib st) t") (auto simp: resolve_template_def)

lemma resolve_template_Inl:
  "resolve_template lib (PStr t) st = Inl e \<longleftrightarrow> ref_sub (replace_ref lib st) t = Inl e"
  by (cases "ref_sub (replace_ref lib st) t") (auto simp: resolve_template_def)

lemma no_match_ref:
  assumes "\<nexists>g rest. t = ''{{'' @ g @ ''}}'' @ rest \<and> g \<noteq> [] \<and> CHR ''}'' \<notin> set g"
  shows "match_ref t = None"
proof (cases "match_ref t")
  case None
  then show ?thesis .
next
  case (Some x)
  obtain g rest where "x = (g, rest)" by (cases x)
  with Some have "match_ref t = Some (g, rest)" by simp
  then have "t = ''{{'' @ g @ ''}}'' @ rest \<and> g \<noteq> [] \<and> CHR ''}'' \<notin> set g"
    using match_ref_iff [of t g rest] by blast
  with assms show ?thesis by blast
qed

text \<open>
  Claim C5. \<open>resolve_template\<close> returns a value that is not a string as it is and
  turns a string into a string, unless a replacement raises. A string without \<open>{{\<close>
  comes back unchanged. Where the string begins with a match of the pattern (two
  opening braces, a non-empty group without a closing brace, two closing braces) the
  result is the replacement of the group followed by the resolution of the text after
  the match: the replacement is not scanned again; an exception of the replacement, or
  else of the resolution of the rest, is the outcome. Where the string does not begin
  with a match, the first character is kept and the resolution goes on behind it. The
  replacement of a group trims it with \<open>strip\<close>, reads \<open>get_nested\<close> at the trimmed path
  and gives the empty string for \<open>None\<close>, what \<open>json.dumps\<close> gives for a dict or a list,
  and what \<open>str\<close> gives for any other value. This holds whatever \<open>strip\<close>, \<open>int\<close>,
  \<open>json.dumps\<close> and \<open>str\<close> do.
\<close>

theorem resolve_template_single_pass:
  "(\<not> is_str v \<longrightarrow> resolve_template lib v st = Inr v)
   \<and> ((\<exists>e'. resolve_template lib (PStr t) st = Inl e')
        \<or> (\<exists>r'. resolve_template lib (PStr t) st = Inr (PStr r')))
   \<and> ((\<nexists>pre post. t = pre @ ''{{'' @ post) \<longrightarrow> resolve_template lib (PStr t) st = Inr (PStr t))
   \<and> (t = ''{{'' @ g @ ''}}'' @ rest \<and> g \<noteq> [] \<and> CHR ''}'' \<notin> set g
          \<and> replace_ref lib st g = Inr x
          \<and> resolve_template lib (PStr rest) st = Inr (PStr r)
        \<longrightarrow> resolve_template lib (PStr t) st = Inr (PStr (x @ r)))
   \<and> (t = ''{{'' @ g @ ''}}'' @ rest \<and> g \<noteq> [] \<and> CHR ''}'' \<notin> set g
          \<and> replace_ref lib st g = Inl e
        \<longrightarrow> resolve_template lib (PStr t) st = Inl e)
   \<and> (t = ''{{'' @ g @ ''}}'' @ rest \<and> g \<noteq> [] \<and> CHR ''}'' \<notin> set g
          \<and> replace_ref lib st g = Inr x
          \<and> resolve_template lib (PStr rest) st = Inl e
        \<longrightarrow> resolve_template lib (PStr t) st = Inl e)
   \<and> (t = c # cs
          \<and> (\<nexists>g' rest'. t = ''{{'' @ g' @ ''}}'' @ rest' \<and> g' \<noteq> [] \<and> CHR ''}'' \<notin> set g')
          \<and> resolve_template lib (PStr cs) st = Inr (PStr r)
        \<longrightarrow> resolve_template lib (PStr t) st = Inr (PStr (c # r)))
   \<and> (t = c # cs
          \<and> (\<nexists>g' rest'. t = ''{{'' @ g' @ ''}}'' @ rest' \<and> g' \<noteq> [] \<and> CHR ''}'' \<notin> set g')
          \<and> resolve_template lib (PStr cs) st = Inl e
        \<longrightarrow> resolve_template lib (PStr t) st = Inl e)
   \<and> (get_nested lib st (py_strip lib g) PNone = PNone \<longrightarrow> replace_ref lib st g = Inr [])
   \<and> (is_dict (get_nested lib st (py_strip lib g) PNone)
          \<or> is_list (get_nested lib st (py_strip lib g) PNone)
        \<longrightarrow> replace_ref lib st g = json_dumps lib (get_nested lib st (py_strip lib g) PNone))
   \<and> (get_nested lib st (py_strip lib g) PNone \<noteq> PNone
          \<and> \<not> is_dict (get_nested lib st (py_strip lib g) PNone)
          \<and> \<not> is_list (get_nested lib st (py_strip lib g) PNone)
        \<longrightarrow> replace_ref lib st g = py_str lib (get_nested lib st (py_strip lib g) PNone))"
proof (intro conjI impI)
  assume "\<not> is_str v"
  then show "resolve_template lib v st = Inr v"
    by (cases v) (simp_all add: resolve_template_def)
next
  show "(\<exists>e'. resolve_template lib (PStr t) st = Inl e')
        \<or> (\<exists>r'. resolve_template lib (PStr t) st = Inr (PStr r'))"
    by (cases "ref_sub (replace_ref lib st) t") (simp_all add: resolve_template_def)
next
  assume "\<nexists>pre post. t = pre @ ''{{'' @ post"
  then have "\<not> has_open t"
    unfolding has_open_iff .
  then show "resolve_template lib (PStr t) st = Inr (PStr t)"
    by (simp add: resolve_template_def ref_sub_no_open)
next
  assume h: "t = ''{{'' @ g @ ''}}'' @ rest \<and> g \<noteq> [] \<and> CHR ''}'' \<notin> set g
          \<and> replace_ref lib st g = Inr x
          \<and> resolve_template lib (PStr rest) st = Inr (PStr r)"
  then have "match_ref t = Some (g, rest)"
    using match_ref_iff [of t g rest] by blast
  moreover from h have "t = CHR ''{'' # (CHR ''{'' # g @ ''}}'' @ rest)"
    by simp
  ultimately have "ref_sub (replace_ref lib st) t
      = (case replace_ref lib st g of
           Inl e \<Rightarrow> Inl e
         | Inr x \<Rightarrow> map_sum id (\<lambda>r. x @ r) (ref_sub (replace_ref lib st) rest))"
    using ref_sub_match [of "CHR ''{''" "CHR ''{'' # g @ ''}}'' @ rest" g rest] by simp
  moreover from h have "ref_sub (replace_ref lib st) rest = Inr r"
    by (simp add: resolve_template_Inr)
  moreover from h have "replace_ref lib st g = Inr x"
    by simp
  ultimately have "ref_sub (replace_ref lib st) t = Inr (x @ r)"
    by simp
  then show "resolve_template lib (PStr t) st = Inr (PStr (x @ r))"
    by (simp add: resolve_template_Inr)
next
  assume h: "t = ''{{'' @ g @ ''}}'' @ rest \<and> g \<noteq> [] \<and> CHR ''}'' \<notin> set g
          \<and> replace_ref lib st g = Inl e"
  then have "match_ref t = Some (g, rest)"
    using match_ref_iff [of t g rest] by blast
  moreover from h have "t = CHR ''{'' # (CHR ''{'' # g @ ''}}'' @ rest)"
    by simp
  ultimately have "ref_sub (replace_ref lib st) t
      = (case replace_ref lib st g of
           Inl e \<Rightarrow> Inl e
         | Inr x \<Rightarrow> map_sum id (\<lambda>r. x @ r) (ref_sub (replace_ref lib st) rest))"
    using ref_sub_match [of "CHR ''{''" "CHR ''{'' # g @ ''}}'' @ rest" g rest] by simp
  moreover from h have "replace_ref lib st g = Inl e"
    by simp
  ultimately have "ref_sub (replace_ref lib st) t = Inl e"
    by simp
  then show "resolve_template lib (PStr t) st = Inl e"
    by (simp add: resolve_template_Inl)
next
  assume h: "t = ''{{'' @ g @ ''}}'' @ rest \<and> g \<noteq> [] \<and> CHR ''}'' \<notin> set g
          \<and> replace_ref lib st g = Inr x
          \<and> resolve_template lib (PStr rest) st = Inl e"
  then have "match_ref t = Some (g, rest)"
    using match_ref_iff [of t g rest] by blast
  moreover from h have "t = CHR ''{'' # (CHR ''{'' # g @ ''}}'' @ rest)"
    by simp
  ultimately have "ref_sub (replace_ref lib st) t
      = (case replace_ref lib st g of
           Inl e \<Rightarrow> Inl e
         | Inr x \<Rightarrow> map_sum id (\<lambda>r. x @ r) (ref_sub (replace_ref lib st) rest))"
    using ref_sub_match [of "CHR ''{''" "CHR ''{'' # g @ ''}}'' @ rest" g rest] by simp
  moreover from h have "ref_sub (replace_ref lib st) rest = Inl e"
    by (simp add: resolve_template_Inl)
  moreover from h have "replace_ref lib st g = Inr x"
    by simp
  ultimately have "ref_sub (replace_ref lib st) t = Inl e"
    by simp
  then show "resolve_template lib (PStr t) st = Inl e"
    by (simp add: resolve_template_Inl)
next
  assume h: "t = c # cs
          \<and> (\<nexists>g' rest'. t = ''{{'' @ g' @ ''}}'' @ rest' \<and> g' \<noteq> [] \<and> CHR ''}'' \<notin> set g')
          \<and> resolve_template lib (PStr cs) st = Inr (PStr r)"
  then have "match_ref t = None"
    by (intro no_match_ref) blast
  moreover from h have "ref_sub (replace_ref lib st) cs = Inr r"
    by (simp add: resolve_template_Inr)
  ultimately have "ref_sub (replace_ref lib st) t = Inr (c # r)"
    using h by (simp add: ref_sub_skip)
  then show "resolve_template lib (PStr t) st = Inr (PStr (c # r))"
    by (simp add: resolve_template_Inr)
next
  assume h: "t = c # cs
          \<and> (\<nexists>g' rest'. t = ''{{'' @ g' @ ''}}'' @ rest' \<and> g' \<noteq> [] \<and> CHR ''}'' \<notin> set g')
          \<and> resolve_template lib (PStr cs) st = Inl e"
  then have "match_ref t = None"
    by (intro no_match_ref) blast
  moreover from h have "ref_sub (replace_ref lib st) cs = Inl e"
    by (simp add: resolve_template_Inl)
  ultimately have "ref_sub (replace_ref lib st) t = Inl e"
    using h by (simp add: ref_sub_skip)
  then show "resolve_template lib (PStr t) st = Inl e"
    by (simp add: resolve_template_Inl)
next
  assume "get_nested lib st (py_strip lib g) PNone = PNone"
  then show "replace_ref lib st g = Inr []"
    by (simp add: replace_ref_def)
next
  assume "is_dict (get_nested lib st (py_strip lib g) PNone)
      \<or> is_list (get_nested lib st (py_strip lib g) PNone)"
  then show "replace_ref lib st g = json_dumps lib (get_nested lib st (py_strip lib g) PNone)"
    by (auto simp: replace_ref_def Let_def)
next
  assume "get_nested lib st (py_strip lib g) PNone \<noteq> PNone
      \<and> \<not> is_dict (get_nested lib st (py_strip lib g) PNone)
      \<and> \<not> is_list (get_nested lib st (py_strip lib g) PNone)"
  then show "replace_ref lib st g = py_str lib (get_nested lib st (py_strip lib g) PNone)"
    by (simp add: replace_ref_def Let_def)
qed

theorem resolve_template_single_pass_witness:
  "\<not> is_str (PInt 3) \<and> resolve_template sample_lib (PInt 3) sample_state = Inr (PInt 3)
   \<and> (\<nexists>pre post. ''a {b} c'' = pre @ ''{{'' @ post)
   \<and> resolve_template sample_lib (PStr ''a {b} c'') sample_state = Inr (PStr ''a {b} c'')
   \<and> ''{{ user.name }}!'' = ''{{'' @ '' user.name '' @ ''}}'' @ ''!''
   \<and> get_nested sample_lib sample_state (py_strip sample_lib '' user.name '') PNone
       = PStr ''Alice''
   \<and> replace_ref sample_lib sample_state '' user.name '' = Inr ''Alice''
   \<and> resolve_template sample_lib (PStr ''!'') sample_state = Inr (PStr ''!'')
   \<and> resolve_template sample_lib (PStr ''{{ user.name }}!'') sample_state
       = Inr (PStr ''Alice!'')
   \<and> (\<nexists>g' rest'. ''x{{ user.name }}!'' = ''{{'' @ g' @ ''}}'' @ rest' \<and> g' \<noteq> []
          \<and> CHR ''}'' \<notin> set g')
   \<and> resolve_template sample_lib (PStr ''x{{ user.name }}!'') sample_state
       = Inr (PStr ''xAlice!'')
   \<and> get_nested sample_lib sample_state (py_strip sample_lib ''nobody'') PNone = PNone
   \<and> replace_ref sample_lib sample_state ''nobody'' = Inr []
   \<and> is_list (get_nested sample_lib opaque_state (py_strip sample_lib ''cfg'') PNone)
   \<and> replace_ref sample_lib opaque_state ''cfg''
       = Inl (PyExc ''TypeError'' ''Object of type WebhookConfig is not JSON serializable'')
   \<and> resolve_template sample_lib (PStr ''{{cfg}}!'') opaque_state
       = Inl (PyExc ''TypeError'' ''Object of type WebhookConfig is not JSON serializable'')
   \<and> resolve_template sample_lib (PStr ''x{{cfg}}!'') opaque_state
       = Inl (PyExc ''TypeError'' ''Object of type WebhookConfig is not JSON serializable'')
   \<and> replace_ref sample_lib opaque_state '' user.name '' = Inr ''Alice''
   \<and> resolve_template sample_lib (PStr ''{{ user.name }}{{cfg}}!'') opaque_state
       = Inl (PyExc ''TypeError'' ''Object of type WebhookConfig is not JSON serializable'')"
proof -
  let ?E = "PyExc ''TypeError'' ''Object of type WebhookConfig is not JSON serializable''"
  note T = resolve_template_single_pass [where v = "PInt 3" and lib = sample_lib
      and st = sample_state and t = "''{{ user.name }}!''" and g = "'' user.name ''"
      and rest = "''!''" and x = "''Alice''" and r = "''!''" and e = ?E
      and c = "CHR ''x''" and cs = "''y''"]
  note U = resolve_template_single_pass [where v = "PInt 3" and lib = sample_lib
      and st = sample_state and t = "''a {b} c''" and g = "''nobody''"
      and rest = "''!''" and x = "''Alice''" and r = "''!''" and e = ?E
      and c = "CHR ''x''" and cs = "''y''"]
  note V = resolve_template_single_pass [where v = "PInt 3" and lib = sample_lib
      and st = sample_state and t = "''!''" and g = "'' user.name ''"
      and rest = "''!''" and x = "''Alice''" and r = "''!''" and e = ?E
      and c = "CHR ''x''" and cs = "''y''"]
  note S = resolve_template_single_pass [where v = "PInt 3" and lib = sample_lib
      and st = sample_state and t = "''x{{ user.name }}!''" and g = "'' user.name ''"
      and rest = "''!''" and x = "''Alice''" and r = "''Alice!''" and e = ?E
      and c = "CHR ''x''" and cs = "''{{ user.name }}!''"]
  note O1 = resolve_template_single_pass [where v = "PInt 3" and lib = sample_lib
      and st = opaque_state and t = "''{{cfg}}!''" and g = "''cfg''"
      and rest = "''!''" and x = "''Alice''" and r = "''!''" and e = ?E
      and c = "CHR ''x''" and cs = "''y''"]
  note O2 = resolve_template_single_pass [where v = "PInt 3" and lib = sample_lib
      and st = opaque_state and t = "''x{{cfg}}!''" and g = "''cfg''"
      and rest = "''!''" and x = "''Alice''" and r = "''!''" and e = ?E
      and c = "CHR ''x''" and cs = "''{{cfg}}!''"]
  note O3 = resolve_template_single_pass [where v = "PInt 3" and lib = sample_lib
      and st = opaque_state and t = "''{{ user.name }}{{cfg}}!''" and g = "'' user.name ''"
      and rest = "''{{cfg}}!''" and x = "''Alice''" and r = "''!''" and e = ?E
      and c = "CHR ''x''" and cs = "''y''"]
  have n1: "\<nexists>pre post. ''a {b} c'' = pre @ ''{{'' @ post"
  proof -
    have "\<not> has_open ''a {b} c''" by simp
    then show ?thesis unfolding has_open_iff .
  qed
  have n2: "\<nexists>pre post. ''!'' = pre @ ''{{'' @ post"
  proof -
    have "\<not> has_open ''!''" by simp
    then show ?thesis unfolding has_open_iff .
  qed
  have n3: "\<nexists>g' rest'. ''x{{ user.name }}!'' = ''{{'' @ g' @ ''}}'' @ rest' \<and> g' \<noteq> []
      \<and> CHR ''}'' \<notin> set g'"
    by simp
  have n4: "\<nexists>g' rest'. ''x{{cfg}}!'' = ''{{'' @ g' @ ''}}'' @ rest' \<and> g' \<noteq> []
      \<and> CHR ''}'' \<notin> set g'"
    by simp
  have g1: "get_nested sample_lib sample_state (py_strip sample_lib '' user.name '') PNone
      = PStr ''Alice''"
    by (simp add: get_nested_def sample_state_def sample_lib_def sample_strip_def)
  have g2: "get_nested sample_lib sample_state (py_strip sample_lib ''nobody'') PNone = PNone"
    by (simp add: get_nested_def sample_state_def sample_lib_def sample_strip_def)
  have g3: "get_nested sample_lib opaque_state (py_strip sample_lib ''cfg'') PNone
      = PList [PModel ''WebhookConfig'' True []]"
    by (simp add: get_nested_def opaque_state_def sample_state_def sample_lib_def
        sample_strip_def)
  have g4: "get_nested sample_lib opaque_state (py_strip sample_lib '' user.name '') PNone
      = PStr ''Alice''"
    by (simp add: get_nested_def opaque_state_def sample_state_def sample_lib_def
        sample_strip_def)
  have d3: "json_dumps sample_lib (PList [PModel ''WebhookConfig'' True []]) = Inl ?E"
    by (simp add: sample_lib_def)
  have r5: "resolve_template sample_lib (PInt 3) sample_state = Inr (PInt 3)"
    using T [THEN conjunct1] by simp
  have r6: "resolve_template sample_lib (PStr ''a {b} c'') sample_state
      = Inr (PStr ''a {b} c'')"
    using U [THEN conjunct2, THEN conjunct2, THEN conjunct1] n1 by (rule mp)
  have r1: "resolve_template sample_lib (PStr ''!'') sample_state = Inr (PStr ''!'')"
    using V [THEN conjunct2, THEN conjunct2, THEN conjunct1] n2 by (rule mp)
  have r1o: "resolve_template sample_lib (PStr ''!'') opaque_state = Inr (PStr ''!'')"
    using resolve_template_single_pass [where v = "PInt 3" and lib = sample_lib
      and st = opaque_state and t = "''!''" and g = "''cfg''"
      and rest = "''!''" and x = "''Alice''" and r = "''!''" and e = ?E
      and c = "CHR ''x''" and cs = "''y''", THEN conjunct2, THEN conjunct2, THEN conjunct1]
      n2 by (rule mp)
  note T8 = T [THEN conjunct2, THEN conjunct2, THEN conjunct2, THEN conjunct2, THEN conjunct2,
      THEN conjunct2, THEN conjunct2, THEN conjunct2]
  note U8 = U [THEN conjunct2, THEN conjunct2, THEN conjunct2, THEN conjunct2, THEN conjunct2,
      THEN conjunct2, THEN conjunct2, THEN conjunct2]
  note O18 = O1 [THEN conjunct2, THEN conjunct2, THEN conjunct2, THEN conjunct2,
      THEN conjunct2, THEN conjunct2, THEN conjunct2, THEN conjunct2]
  note O38 = O3 [THEN conjunct2, THEN conjunct2, THEN conjunct2, THEN conjunct2,
      THEN conjunct2, THEN conjunct2, THEN conjunct2, THEN conjunct2]
  have r2: "replace_ref sample_lib sample_state '' user.name '' = Inr ''Alice''"
    using T8 [THEN conjunct2, THEN conjunct2] by (simp add: g1)
  have r2o: "replace_ref sample_lib opaque_state '' user.name '' = Inr ''Alice''"
    using O38 [THEN conjunct2, THEN conjunct2] by (simp add: g4)
  have r3: "replace_ref sample_lib sample_state ''nobody'' = Inr []"
    using U8 [THEN conjunct1] g2 by (rule mp)
  have r7: "replace_ref sample_lib opaque_state ''cfg'' = Inl ?E"
    using O18 [THEN conjunct2, THEN conjunct1] by (simp add: g3 d3)
  have e: "''{{ user.name }}!'' = ''{{'' @ '' user.name '' @ ''}}'' @ ''!''
      \<and> '' user.name '' \<noteq> [] \<and> CHR ''}'' \<notin> set '' user.name ''
      \<and> replace_ref sample_lib sample_state '' user.name '' = Inr ''Alice''
      \<and> resolve_template sample_lib (PStr ''!'') sample_state = Inr (PStr ''!'')"
    using r1 r2 by simp
  have r4: "resolve_template sample_lib (PStr ''{{ user.name }}!'') sample_state
      = Inr (PStr (''Alice'' @ ''!''))"
    using T [THEN conjunct2, THEN conjunct2, THEN conjunct2, THEN conjunct1] e by (rule mp)
  have s: "''x{{ user.name }}!'' = CHR ''x'' # ''{{ user.name }}!''
      \<and> (\<nexists>g' rest'. ''x{{ user.name }}!'' = ''{{'' @ g' @ ''}}'' @ rest' \<and> g' \<noteq> []
            \<and> CHR ''}'' \<notin> set g')
      \<and> resolve_template sample_lib (PStr ''{{ user.name }}!'') sample_state
          = Inr (PStr ''Alice!'')"
    using r4 n3 by simp
  have r8: "resolve_template sample_lib (PStr ''x{{ user.name }}!'') sample_state
      = Inr (PStr (CHR ''x'' # ''Alice!''))"
    using S [THEN conjunct2, THEN conjunct2, THEN conjunct2, THEN conjunct2, THEN conjunct2,
        THEN conjunct2, THEN conjunct1] s by (rule mp)
  have o1: "''{{cfg}}!'' = ''{{'' @ ''cfg'' @ ''}}'' @ ''!''
      \<and> ''cfg'' \<noteq> [] \<and> CHR ''}'' \<notin> set ''cfg''
      \<and> replace_ref sample_lib opaque_state ''cfg'' = Inl ?E"
    using r7 by simp
  have r9: "resolve_template sample_lib (PStr ''{{cfg}}!'') opaque_state = Inl ?E"
    using O1 [THEN conjunct2, THEN conjunct2, THEN conjunct2, THEN conjunct2, THEN conjunct1]
      o1 by (rule mp)
  have o2: "''x{{cfg}}!'' = CHR ''x'' # ''{{cfg}}!''
      \<and> (\<nexists>g' rest'. ''x{{cfg}}!'' = ''{{'' @ g' @ ''}}'' @ rest' \<and> g' \<noteq> []
            \<and> CHR ''}'' \<notin> set g')
      \<and> resolve_template sample_lib (PStr ''{{cfg}}!'') opaque_state = Inl ?E"
    using r9 n4 by simp
  have r10: "resolve_template sample_lib (PStr ''x{{cfg}}!'') opaque_state = Inl ?E"
    using O2 [THEN conjunct2, THEN conjunct2, THEN conjunct2, THEN conjunct2, THEN conjunct2,
        THEN conjunct2, THEN conjunct2, THEN conjunct1] o2 by (rule mp)
  have o3: "''{{ user.name }}{{cfg}}!'' = ''{{'' @ '' user.name '' @ ''}}'' @ ''{{cfg}}!''
      \<and> '' user.name '' \<noteq> [] \<and> CHR ''}'' \<notin> set '' user.name ''
      \<and> replace_ref sample_lib opaque_state '' user.name '' = Inr ''Alice''
      \<and> resolve_template sample_lib (PStr ''{{cfg}}!'') opaque_state = Inl ?E"
    using r9 r2o by simp
  have r11: "resolve_template sample_lib (PStr ''{{ user.name }}{{cfg}}!'') opaque_state
      = Inl ?E"
    using O3 [THEN conjunct2, THEN conjunct2, THEN conjunct2, THEN conjunct2, THEN conjunct2,
        THEN conjunct1] o3 by (rule mp)
  have l3: "is_list (get_nested sample_lib opaque_state (py_strip sample_lib ''cfg'') PNone)"
    by (simp add: g3)
  from n1 n3 g1 g2 l3 r1 r2 r2o r3 r4 r5 r6 r7 r8 r9 r10 r11 show ?thesis
    by simp
qed

section \<open>Failed results: theorems\<close>

text \<open>
  Claim C1 as stated fails: the request step declares the port \<open>error\<close>, but when its
  body raises, or when \<open>failure\<close> is called for it without \<open>fired_ports\<close>, the result
  does not fire \<open>["error"]\<close>.
\<close>

theorem failure_fires_default_counterexample:
  "''error'' \<in> set (ports request_step)
   \<and> fired_ports (execute_step request_step (Inl (PyExc ''RuntimeError'' ''boom''))) \<noteq> [''error'']
   \<and> fired_ports (failure (sid request_step) ''boom'' None None None) \<noteq> [''error'']"
  by (simp add: request_step_def execute_step_def failure_def)

text \<open>
  Claim C1, amended. A result built by \<open>StepRunResult.failure\<close> without a
  \<open>fired_ports\<close> argument has status ERROR and fires \<open>["default"]\<close>, whatever the ports
  of the step are. In particular the result of a step whose body raises has status
  ERROR, code \<open>EXECUTION_ERROR\<close>, the id of the step, and fires \<open>["default"]\<close>.
\<close>

theorem failure_fires_default:
  "fired_ports (failure i msg code details None) = [''default'']
   \<and> status (failure i msg code details None) = ERROR
   \<and> fired_ports (execute_step step (Inl e)) = [''default'']
   \<and> status (execute_step step (Inl e)) = ERROR
   \<and> map_option err_code (error (execute_step step (Inl e))) = Some (Some ''EXECUTION_ERROR'')
   \<and> step_id (execute_step step (Inl e)) = sid step"
  by (simp add: execute_step_def failure_def)

theorem failure_fires_default_witness:
  "fired_ports (execute_step request_step (Inl (PyExc ''RuntimeError'' ''boom''))) = [''default'']
   \<and> status (execute_step request_step (Inl (PyExc ''RuntimeError'' ''boom''))) = ERROR
   \<and> fired_ports (failure 7 ''boom'' (Some ''CONFIG_RESOLUTION_ERROR'') None None) = [''default'']"
  using failure_fires_default [of 7 "''boom''" "Some ''CONFIG_RESOLUTION_ERROR''" None request_step
      "PyExc ''RuntimeError'' ''boom''"]
  by simp

section \<open>The runner: theorems\<close>

subsection \<open>Selecting and launching\<close>

lemma select_steps_fst:
  "fst (select_steps flow order (d, l))
   = d\<lparr>pending := filter (\<lambda>j. \<not> (j \<in> set order \<and> get_step flow j = None)) (pending d)\<rparr>"
proof (induction order arbitrary: d l)
  case Nil
  show ?case by simp
next
  case (Cons i rest)
  show ?case
  proof (cases "get_step flow i")
    case None
    have "filter (\<lambda>j. \<not> (j \<in> set rest \<and> get_step flow j = None)) (removeAll i (pending d))
        = filter (\<lambda>j. \<not> (j \<in> set (i # rest) \<and> get_step flow j = None)) (pending d)"
      using None by (auto simp: removeAll_filter_not_eq intro: filter_cong)
    with None Cons [of "d\<lparr>pending := removeAll i (pending d)\<rparr>" l] show ?thesis
      by simp
  next
    case (Some step)
    have "filter (\<lambda>j. \<not> (j \<in> set rest \<and> get_step flow j = None)) (pending d)
        = filter (\<lambda>j. \<not> (j \<in> set (i # rest) \<and> get_step flow j = None)) (pending d)"
      using Some by (auto intro: filter_cong)
    with Some Cons [of d l] Cons [of d "l @ [i]"] show ?thesis
      by (simp add: Let_def)
  qed
qed

lemma select_steps_snd:
  "snd (select_steps flow order (d, l))
   = l @ filter (\<lambda>i. case get_step flow i of
                        None \<Rightarrow> False
                      | Some step \<Rightarrow>
                          \<not> (get_edges_to flow i \<noteq> [] \<and> join_mode step \<noteq> NO_WAIT
                              \<and> \<not> is_ready (join_trackers d i) (join_mode step)
                                    (get_edges_to flow i))) order"
proof (induction order arbitrary: d l)
  case Nil
  show ?case by simp
next
  case (Cons i rest)
  show ?case
  proof (cases "get_step flow i")
    case None
    with Cons [of "d\<lparr>pending := removeAll i (pending d)\<rparr>" l] show ?thesis
      by (simp cong: option.case_cong)
  next
    case (Some step)
    with Cons [of d l] Cons [of d "l @ [i]"] show ?thesis
      by (simp add: Let_def)
  qed
qed

lemma launch_step_trackers: "join_trackers (launch_step flow lib env d i) = join_trackers d"
  by (simp add: launch_step_def Let_def split: option.splits sum.splits)

lemma launch_step_pending: "pending (launch_step flow lib env d i) = removeAll i (pending d)"
  by (simp add: launch_step_def Let_def split: option.splits sum.splits)

lemma launch_step_state: "state (launch_step flow lib env d i) = state d"
  by (simp add: launch_step_def Let_def split: option.splits sum.splits)

lemma launch_step_missing:
  "get_step flow i = None \<Longrightarrow> launch_step flow lib env d i = d\<lparr>pending := removeAll i (pending d)\<rparr>"
  by (simp add: launch_step_def Let_def)

lemma launch_step_events:
  "\<exists>new. events (launch_step flow lib env d i) = events d @ new
     \<and> (\<forall>rid j ty. StepStarted rid j ty \<in> set new \<longrightarrow> j = i)"
  by (auto simp: launch_step_def Let_def split: option.splits sum.splits)

lemma launch_steps_trackers: "join_trackers (launch_steps flow lib env d l) = join_trackers d"
  unfolding launch_steps_def
  by (induction l arbitrary: d) (simp_all add: launch_step_trackers)

lemma launch_steps_state: "state (launch_steps flow lib env d l) = state d"
  unfolding launch_steps_def
  by (induction l arbitrary: d) (simp_all add: launch_step_state)

lemma launch_steps_pending:
  "pending (launch_steps flow lib env d l) = filter (\<lambda>j. j \<notin> set l) (pending d)"
  unfolding launch_steps_def
proof (induction l arbitrary: d)
  case Nil
  show ?case by simp
next
  case (Cons i l)
  have "filter (\<lambda>j. j \<notin> set l) (removeAll i (pending d)) = filter (\<lambda>j. j \<notin> set (i # l)) (pending d)"
    by (auto simp: removeAll_filter_not_eq intro: filter_cong)
  with Cons [of "launch_step flow lib env d i"] show ?case
    by (simp add: launch_step_pending)
qed

lemma launch_steps_events:
  "\<exists>new. events (launch_steps flow lib env d l) = events d @ new
     \<and> (\<forall>rid j ty. StepStarted rid j ty \<in> set new \<longrightarrow> j \<in> set l)"
  unfolding launch_steps_def
proof (induction l arbitrary: d)
  case Nil
  show ?case by simp
next
  case (Cons i l)
  obtain n1 where n1: "events (launch_step flow lib env d i) = events d @ n1"
    and s1: "\<forall>rid j ty. StepStarted rid j ty \<in> set n1 \<longrightarrow> j = i"
    using launch_step_events [of flow lib env d i] by blast
  obtain n2 where n2: "events (fold (\<lambda>i d'. launch_step flow lib env d' i) l
        (launch_step flow lib env d i)) = events (launch_step flow lib env d i) @ n2"
    and s2: "\<forall>rid j ty. StepStarted rid j ty \<in> set n2 \<longrightarrow> j \<in> set l"
    using Cons [of "launch_step flow lib env d i"] by blast
  from n1 n2 have "events (fold (\<lambda>i d'. launch_step flow lib env d' i) (i # l) d)
      = events d @ (n1 @ n2)"
    by simp
  moreover have "\<forall>rid j ty. StepStarted rid j ty \<in> set (n1 @ n2) \<longrightarrow> j \<in> set (i # l)"
  proof (intro allI impI)
    fix rid j ty
    assume "StepStarted rid j ty \<in> set (n1 @ n2)"
    then consider "StepStarted rid j ty \<in> set n1" | "StepStarted rid j ty \<in> set n2"
      by auto
    then show "j \<in> set (i # l)"
    proof cases
      case 1
      with s1 have "j = i" by blast
      then show ?thesis by simp
    next
      case 2
      with s2 have "j \<in> set l" by blast
      then show ?thesis by simp
    qed
  qed
  ultimately show ?case by blast
qed

lemma launch_phase_split:
  "launch_phase flow lib env d
   = launch_steps flow lib env (fst (select_steps flow (list_pending env d) (d\<lparr>rounds := Suc (rounds d)\<rparr>, [])))
       (snd (select_steps flow (list_pending env d) (d\<lparr>rounds := Suc (rounds d)\<rparr>, [])))"
  by (simp add: launch_phase_def Let_def split: prod.splits)

lemma launch_phase_trackers: "join_trackers (launch_phase flow lib env d) = join_trackers d"
  by (simp add: launch_phase_split launch_steps_trackers select_steps_fst)

lemma launch_phase_state: "state (launch_phase flow lib env d) = state d"
  by (simp add: launch_phase_split launch_steps_state select_steps_fst)

lemma launch_phase_pending: "set (pending (launch_phase flow lib env d)) \<subseteq> set (pending d)"
  by (auto simp: launch_phase_split launch_steps_pending select_steps_fst)

lemma launch_phase_events:
  "\<exists>new. events (launch_phase flow lib env d) = events d @ new
     \<and> (\<forall>rid i ty. StepStarted rid i ty \<in> set new \<longrightarrow>
           i \<in> set (pending d)
           \<and> (\<forall>step. get_step flow i = Some step \<and> get_edges_to flow i \<noteq> []
                  \<and> join_mode step \<noteq> NO_WAIT
                \<longrightarrow> is_ready (join_trackers d i) (join_mode step) (get_edges_to flow i)))"
proof -
  let ?d0 = "d\<lparr>rounds := Suc (rounds d)\<rparr>"
  let ?sel = "select_steps flow (list_pending env d) (?d0, [])"
  obtain new where n: "events (launch_steps flow lib env (fst ?sel) (snd ?sel)) = events (fst ?sel) @ new"
    and s: "\<forall>rid j ty. StepStarted rid j ty \<in> set new \<longrightarrow> j \<in> set (snd ?sel)"
    using launch_steps_events [of flow lib env "fst ?sel" "snd ?sel"] by blast
  have lp: "set (list_pending env d) = set (pending d)"
    by (simp add: list_pending_def Let_def)
  have ev: "events (fst ?sel) = events d"
    by (simp add: select_steps_fst)
  have "\<forall>rid i ty. StepStarted rid i ty \<in> set new \<longrightarrow>
           i \<in> set (pending d)
           \<and> (\<forall>step. get_step flow i = Some step \<and> get_edges_to flow i \<noteq> []
                  \<and> join_mode step \<noteq> NO_WAIT
                \<longrightarrow> is_ready (join_trackers d i) (join_mode step) (get_edges_to flow i))"
  proof (intro allI impI)
    fix rid i ty
    assume "StepStarted rid i ty \<in> set new"
    with s have "i \<in> set (snd ?sel)" by blast
    then show "i \<in> set (pending d)
           \<and> (\<forall>step. get_step flow i = Some step \<and> get_edges_to flow i \<noteq> []
                  \<and> join_mode step \<noteq> NO_WAIT
                \<longrightarrow> is_ready (join_trackers d i) (join_mode step) (get_edges_to flow i))"
      using lp by (auto simp: select_steps_snd split: option.splits)
  qed
  with n ev show ?thesis
    by (simp only: launch_phase_split) blast
qed

lemma list_pending_single: "pending d = [t] \<Longrightarrow> list_pending env d = [t]"
proof -
  assume p: "pending d = [t]"
  have one: "xs = [t]" if a: "distinct xs" and b: "set xs = {t}" for xs :: "uuid list"
  proof -
    from a have "length xs = card (set xs)"
      by (simp add: distinct_card)
    with b have "length xs = 1" by simp
    then obtain x where "xs = [x]"
      by (cases xs) auto
    with b show "xs = [t]" by simp
  qed
  show ?thesis
  proof (cases "distinct (pending_order env (rounds d) (pending d))
      \<and> set (pending_order env (rounds d) (pending d)) = set (pending d)")
    case True
    then have "list_pending env d = pending_order env (rounds d) (pending d)"
      unfolding list_pending_def Let_def by (rule if_P)
    moreover from True p have "pending_order env (rounds d) (pending d) = [t]"
      using one [of "pending_order env (rounds d) (pending d)"] by simp
    ultimately show ?thesis by simp
  next
    case False
    then have "list_pending env d = pending d"
      unfolding list_pending_def Let_def by (rule if_not_P)
    with p show ?thesis by simp
  qed
qed

text \<open>
  Claim C9. When the trigger step id is not in the step index of the flow, a run
  yields exactly \<open>FlowStarted\<close> and then \<open>FlowCompleted\<close> with status \<open>"succeeded"\<close>,
  whatever the schedule and the environment are: no step is started or completed, no
  result is recorded, and the state container is the one the run began with.
\<close>

theorem run_flow_missing_trigger:
  "get_step flow trigger_step_id = None \<Longrightarrow>
     \<exists>d. run_flow flow lib env trigger_step_id initial_state schedule = Some d
       \<and> events d = [FlowStarted (run_id env) (flow_name flow),
                      FlowCompleted (run_id env) ''succeeded'']
       \<and> state d = (case initial_state of
                      None \<Rightarrow> \<lparr>sc_slots = [], sc_values = []\<rparr>
                    | Some st \<Rightarrow> st)
       \<and> results d = [] \<and> running d = [] \<and> pending d = []"
proof -
  assume g: "get_step flow trigger_step_id = None"
  let ?d0 = "initial_run_state flow env trigger_step_id initial_state"
  have p: "pending ?d0 = [trigger_step_id]"
    by (simp add: initial_run_state_def)
  have lp: "list_pending env ?d0 = [trigger_step_id]"
    using p by (rule list_pending_single)
  have l: "launch_phase flow lib env ?d0 = ?d0\<lparr>rounds := Suc (rounds ?d0), pending := []\<rparr>"
    using g lp p by (simp add: launch_phase_def launch_steps_def)
  have r: "running ?d0 = []"
    by (simp add: initial_run_state_def)
  have "run_loop flow lib env ?d0 schedule = Some (?d0\<lparr>rounds := Suc (rounds ?d0), pending := []\<rparr>)"
    using l p r by (cases schedule) (simp_all add: Let_def)
  then show ?thesis
    by (simp add: run_flow_def initial_run_state_def final_status_def)
qed

theorem run_flow_missing_trigger_witness:
  "get_step join_flow 99 = None
   \<and> (\<exists>d. run_flow join_flow sample_lib sample_env 99 (Some seeded_state) failing_schedule = Some d
        \<and> events d = [FlowStarted 500 (Some ''join''), FlowCompleted 500 ''succeeded'']
        \<and> state d = seeded_state)"
proof -
  have h: "get_step join_flow 99 = None"
    by code_simp
  from run_flow_missing_trigger [OF h, of sample_lib sample_env "Some seeded_state" failing_schedule]
  have "\<exists>d. run_flow join_flow sample_lib sample_env 99 (Some seeded_state) failing_schedule = Some d
        \<and> events d = [FlowStarted 500 (Some ''join''), FlowCompleted 500 ''succeeded'']
        \<and> state d = seeded_state"
    by (auto simp: sample_env_def join_flow_def)
  with h show ?thesis by simp
qed

text \<open>
  Claim C4. When the configuration of a launched step cannot be resolved, the launch
  records a result with status ERROR and code \<open>CONFIG_RESOLUTION_ERROR\<close>, yields
  \<open>StepStarted\<close> and then \<open>StepCompleted\<close> with that result and \<open>duration_ms = 0\<close>, and
  creates no task: \<open>running\<close> is as before, so the step is not among the tasks whose
  completion is routed. The launch records no arrival in any tracker and adds nothing
  to \<open>pending\<close> (it only discards the step itself); the same holds of the whole launch
  part of a round.
\<close>

theorem config_resolution_error:
  "get_step flow i = Some step \<Longrightarrow> resolve_config lib (config step) (state d) = Inl e \<Longrightarrow>
     (let d' = launch_step flow lib env d i;
          result = failure i (''Config resolution failed: '' @ exception_str e)
                     (Some ''CONFIG_RESOLUTION_ERROR'') None None
      in results d' = results d @ [result]
         \<and> status result = ERROR
         \<and> map_option err_code (error result) = Some (Some ''CONFIG_RESOLUTION_ERROR'')
         \<and> events d' = events d
              @ [StepStarted (run_id env) i (step_type_value (stype step)),
                 StepCompleted (run_id env) i result 0 None]
         \<and> running d' = running d
         \<and> step_start_times d' = step_start_times d
         \<and> join_trackers d' = join_trackers d
         \<and> pending d' = removeAll i (pending d)
         \<and> state d' = state d)
     \<and> join_trackers (launch_phase flow lib env d) = join_trackers d
     \<and> set (pending (launch_phase flow lib env d)) \<subseteq> set (pending d)"
  using launch_phase_pending [of flow lib env d]
  by (simp add: launch_step_def Let_def failure_def launch_phase_trackers)

theorem config_resolution_error_witness:
  "get_step counter_flow 5 = Some counter_step
   \<and> resolve_config sample_lib (config counter_step)
         (state (initial_run_state counter_flow sample_env 5 (Some seeded_state)))
       = Inl (PyExc ''ValueError''
               (''invalid literal for int() with base 10: '' @ [CHR 0x27] @ ''hi'' @ [CHR 0x27]))
   \<and> map status (results (launch_step counter_flow sample_lib sample_env
         (initial_run_state counter_flow sample_env 5 (Some seeded_state)) 5)) = [ERROR]
   \<and> running (launch_step counter_flow sample_lib sample_env
         (initial_run_state counter_flow sample_env 5 (Some seeded_state)) 5) = []
   \<and> pending (launch_step counter_flow sample_lib sample_env
         (initial_run_state counter_flow sample_env 5 (Some seeded_state)) 5) = []
   \<and> map_option events (run_flow counter_flow sample_lib sample_env 5 (Some seeded_state) [])
       = Some [FlowStarted 500 None, StepStarted 500 5 ''transform'',
               StepCompleted 500 5
                 (failure 5 (''Config resolution failed: invalid literal for int() with base 10: ''
                              @ [CHR 0x27] @ ''hi'' @ [CHR 0x27])
                    (Some ''CONFIG_RESOLUTION_ERROR'') None None) 0 None,
               FlowCompleted 500 ''failed'']"
proof -
  let ?d = "initial_run_state counter_flow sample_env 5 (Some seeded_state)"
  let ?e = "PyExc ''ValueError''
      (''invalid literal for int() with base 10: '' @ [CHR 0x27] @ ''hi'' @ [CHR 0x27])"
  have g: "get_step counter_flow 5 = Some counter_step"
    by code_simp
  have r: "resolve_config sample_lib (config counter_step) (state ?d) = Inl ?e"
    by code_simp
  have run: "map_option events (run_flow counter_flow sample_lib sample_env 5 (Some seeded_state) [])
       = Some [FlowStarted 500 None, StepStarted 500 5 ''transform'',
               StepCompleted 500 5
                 (failure 5 (''Config resolution failed: invalid literal for int() with base 10: ''
                              @ [CHR 0x27] @ ''hi'' @ [CHR 0x27])
                    (Some ''CONFIG_RESOLUTION_ERROR'') None None) 0 None,
               FlowCompleted 500 ''failed'']"
    by code_simp
  from config_resolution_error [OF g r, of sample_env]
  have "map status (results (launch_step counter_flow sample_lib sample_env ?d 5)) = [ERROR]
      \<and> running (launch_step counter_flow sample_lib sample_env ?d 5) = []
      \<and> pending (launch_step counter_flow sample_lib sample_env ?d 5) = []"
    by (simp add: Let_def initial_run_state_def)
  with g r run show ?thesis by simp
qed

subsection \<open>Join readiness\<close>

lemma is_ready_all_success:
  "is_ready tracker ALL_SUCCESS incoming
   \<longleftrightarrow> set (map fst (arrivals tracker)) = set (map source_step_id incoming)
       \<and> (\<forall>r \<in> set (map snd (arrivals tracker)). status r = SUCCESS)"
  by (auto simp: is_ready_def Let_def list_all_iff)

lemma record_arrival_keys:
  "fst ` set (arrivals (record_arrival tracker result edge))
   = insert (source_step_id edge) (fst ` set (arrivals tracker))"
  using dom_update [of "source_step_id edge" result "arrivals tracker"]
  by (simp add: record_arrival_def)

lemma route_edge_inv:
  "edge \<in> set (edges flow) \<Longrightarrow> arrivals_from_incoming flow d
     \<Longrightarrow> arrivals_from_incoming flow (route_edge result edge d)"
proof -
  assume e: "edge \<in> set (edges flow)" and a: "arrivals_from_incoming flow d"
  have "fst ` set (arrivals (join_trackers (route_edge result edge d) i))
      \<subseteq> source_step_id ` set (get_edges_to flow i)" for i
  proof (cases "i = target_step_id edge")
    case True
    from e True have "source_step_id edge \<in> source_step_id ` set (get_edges_to flow i)"
      by (simp add: get_edges_to_def)
    moreover from a have "fst ` set (arrivals (join_trackers d i))
        \<subseteq> source_step_id ` set (get_edges_to flow i)"
      by (simp add: arrivals_from_incoming_def)
    ultimately show ?thesis
      using True by (simp add: route_edge_def record_arrival_keys)
  next
    case False
    with a show ?thesis
      by (simp add: route_edge_def arrivals_from_incoming_def)
  qed
  then show ?thesis
    by (simp add: arrivals_from_incoming_def)
qed

lemma fold_route_edge_inv:
  "set es \<subseteq> set (edges flow) \<Longrightarrow> arrivals_from_incoming flow d
     \<Longrightarrow> arrivals_from_incoming flow (fold (route_edge result) es d)"
  by (induction es arbitrary: d) (simp_all add: route_edge_inv)

lemma routed_edges_subset: "set (routed_edges flow i result) \<subseteq> set (edges flow)"
  by (auto simp: routed_edges_def get_edges_from_def)

lemma route_inv:
  "arrivals_from_incoming flow d \<Longrightarrow> arrivals_from_incoming flow (route flow i result d)"
  unfolding route_def
  by (rule fold_route_edge_inv [OF routed_edges_subset])

lemma inv_cong:
  "join_trackers d' = join_trackers d \<Longrightarrow> arrivals_from_incoming flow d
     \<Longrightarrow> arrivals_from_incoming flow d'"
  by (simp add: arrivals_from_incoming_def)

lemma complete_task_inv:
  "arrivals_from_incoming flow d \<Longrightarrow> arrivals_from_incoming flow (complete_task flow env task d)"
proof -
  assume a: "arrivals_from_incoming flow d"
  show ?thesis
  proof (cases "map_of (running d) (fst task)")
    case None
    with a show ?thesis by (simp add: complete_task_def)
  next
    case (Some x)
    obtain step cfg where x: "x = (step, cfg)" by (cases x)
    let ?result = "execute_step step (snd task)"
    let ?d1 = "d\<lparr>results := results d @ [?result],
                  running := AList.delete (fst task) (running d),
                  step_start_times := AList.delete (fst task) (step_start_times d),
                  clock_reads := Suc (Suc (clock_reads d)),
                  events := events d
                    @ [StepCompleted (run_id env) (fst task) ?result
                         ((clock env (Suc (clock_reads d))
                            - (case map_of (step_start_times d) (fst task) of
                                 None \<Rightarrow> clock env (clock_reads d)
                               | Some t \<Rightarrow> t)) * 1000)
                         (Some (sc_values (state d)))]\<rparr>"
    have d1: "arrivals_from_incoming flow ?d1"
      using a by (simp add: arrivals_from_incoming_def)
    have "complete_task flow env task d
        = (if continue_without_waiting ?result then ?d1 else route flow (fst task) ?result ?d1)"
      using Some x by (simp add: complete_task_def Let_def)
    with d1 show ?thesis
      by (simp add: route_inv)
  qed
qed

lemma wait_phase_inv:
  "arrivals_from_incoming flow d \<Longrightarrow> wait_phase flow env d w = Some d'
     \<Longrightarrow> arrivals_from_incoming flow d'"
proof -
  assume a: "arrivals_from_incoming flow d" and w: "wait_phase flow env d w = Some d'"
  have f: "arrivals_from_incoming flow x \<Longrightarrow> arrivals_from_incoming flow (fold (complete_task flow env) ts x)"
    for ts x
    by (induction ts arbitrary: x) (simp_all add: complete_task_inv)
  from a have "arrivals_from_incoming flow (d\<lparr>state := state_after w\<rparr>)"
    by (simp add: arrivals_from_incoming_def)
  with f w show ?thesis
    by (auto simp: wait_phase_def split: if_splits)
qed

lemma launch_phase_inv:
  "arrivals_from_incoming flow d \<Longrightarrow> arrivals_from_incoming flow (launch_phase flow lib env d)"
  by (rule inv_cong [OF launch_phase_trackers])

lemma initial_inv: "arrivals_from_incoming flow (initial_run_state flow env t init)"
  by (simp add: arrivals_from_incoming_def initial_run_state_def)

text \<open>
  Claim C2 as stated fails for a tracker that holds an arrival from a source that is
  not among the incoming edges: the one source of the incoming edge has arrived and
  every recorded result is a success, but the tracker is not ready.
\<close>

theorem all_success_ready_counterexample:
  "source_step_id (default_edge 13 2 4) \<in> set (map fst (arrivals two_arrivals))
   \<and> map status (map snd (arrivals two_arrivals)) = [SUCCESS, SUCCESS]
   \<and> \<not> is_ready two_arrivals ALL_SUCCESS [default_edge 13 2 4]"
  by (simp add: two_arrivals_def default_edge_def ok_result_def is_ready_def)

text \<open>
  Claim C2, amended. With join mode ALL_SUCCESS \<open>is_ready\<close> is true exactly when the
  set of sources with a recorded arrival equals the set of sources of the incoming
  edges and every recorded result has status SUCCESS. For a tracker that holds arrivals
  only from sources of the incoming edges this is the condition that every source of
  an incoming edge has a recorded arrival and every recorded result is a success. The
  trackers of a run are of this kind: the property holds at the start and is kept by
  the launch part and by the wait part of a round. In a round the runner starts a
  pending step that has incoming edges and join mode ALL_SUCCESS only when \<open>is_ready\<close>
  holds of its tracker.
\<close>

theorem all_success_ready:
  "(is_ready tracker ALL_SUCCESS incoming
      \<longleftrightarrow> set (map fst (arrivals tracker)) = set (map source_step_id incoming)
          \<and> (\<forall>r \<in> set (map snd (arrivals tracker)). status r = SUCCESS))
   \<and> (set (map fst (arrivals tracker)) \<subseteq> set (map source_step_id incoming) \<longrightarrow>
        (is_ready tracker ALL_SUCCESS incoming
           \<longleftrightarrow> (\<forall>e \<in> set incoming. source_step_id e \<in> set (map fst (arrivals tracker)))
               \<and> (\<forall>r \<in> set (map snd (arrivals tracker)). status r = SUCCESS)))
   \<and> (\<exists>new. events (launch_phase flow lib env d) = events d @ new
         \<and> (\<forall>rid i ty step.
               StepStarted rid i ty \<in> set new \<and> get_step flow i = Some step
                 \<and> get_edges_to flow i \<noteq> [] \<and> join_mode step = ALL_SUCCESS
               \<longrightarrow> i \<in> set (pending d)
                   \<and> is_ready (join_trackers d i) ALL_SUCCESS (get_edges_to flow i)))
   \<and> arrivals_from_incoming flow (initial_run_state flow env trigger_step_id initial_state)
   \<and> (arrivals_from_incoming flow d \<longrightarrow>
         arrivals_from_incoming flow (launch_phase flow lib env d)
         \<and> (\<forall>w d'. wait_phase flow env d w = Some d' \<longrightarrow> arrivals_from_incoming flow d'))"
proof (intro conjI)
  show "is_ready tracker ALL_SUCCESS incoming
      \<longleftrightarrow> set (map fst (arrivals tracker)) = set (map source_step_id incoming)
          \<and> (\<forall>r \<in> set (map snd (arrivals tracker)). status r = SUCCESS)"
    by (rule is_ready_all_success)
next
  show "set (map fst (arrivals tracker)) \<subseteq> set (map source_step_id incoming) \<longrightarrow>
        (is_ready tracker ALL_SUCCESS incoming
           \<longleftrightarrow> (\<forall>e \<in> set incoming. source_step_id e \<in> set (map fst (arrivals tracker)))
               \<and> (\<forall>r \<in> set (map snd (arrivals tracker)). status r = SUCCESS))"
    unfolding is_ready_all_success by auto
next
  obtain new where n: "events (launch_phase flow lib env d) = events d @ new"
    and s: "\<forall>rid i ty. StepStarted rid i ty \<in> set new \<longrightarrow>
           i \<in> set (pending d)
           \<and> (\<forall>step. get_step flow i = Some step \<and> get_edges_to flow i \<noteq> []
                  \<and> join_mode step \<noteq> NO_WAIT
                \<longrightarrow> is_ready (join_trackers d i) (join_mode step) (get_edges_to flow i))"
    using launch_phase_events [of flow lib env d] by blast
  have "\<forall>rid i ty step.
               StepStarted rid i ty \<in> set new \<and> get_step flow i = Some step
                 \<and> get_edges_to flow i \<noteq> [] \<and> join_mode step = ALL_SUCCESS
               \<longrightarrow> i \<in> set (pending d)
                   \<and> is_ready (join_trackers d i) ALL_SUCCESS (get_edges_to flow i)"
  proof (intro allI impI)
    fix rid i ty step
    assume h: "StepStarted rid i ty \<in> set new \<and> get_step flow i = Some step
                 \<and> get_edges_to flow i \<noteq> [] \<and> join_mode step = ALL_SUCCESS"
    with s have "i \<in> set (pending d)
           \<and> (\<forall>step. get_step flow i = Some step \<and> get_edges_to flow i \<noteq> []
                  \<and> join_mode step \<noteq> NO_WAIT
                \<longrightarrow> is_ready (join_trackers d i) (join_mode step) (get_edges_to flow i))"
      by blast
    with h show "i \<in> set (pending d)
                   \<and> is_ready (join_trackers d i) ALL_SUCCESS (get_edges_to flow i)"
      by force
  qed
  with n show "\<exists>new. events (launch_phase flow lib env d) = events d @ new
         \<and> (\<forall>rid i ty step.
               StepStarted rid i ty \<in> set new \<and> get_step flow i = Some step
                 \<and> get_edges_to flow i \<noteq> [] \<and> join_mode step = ALL_SUCCESS
               \<longrightarrow> i \<in> set (pending d)
                   \<and> is_ready (join_trackers d i) ALL_SUCCESS (get_edges_to flow i))"
    by blast
next
  show "arrivals_from_incoming flow (initial_run_state flow env trigger_step_id initial_state)"
    by (rule initial_inv)
next
  show "arrivals_from_incoming flow d \<longrightarrow>
         arrivals_from_incoming flow (launch_phase flow lib env d)
         \<and> (\<forall>w d'. wait_phase flow env d w = Some d' \<longrightarrow> arrivals_from_incoming flow d')"
    using launch_phase_inv [of flow d lib env] wait_phase_inv [of flow d env]
    by blast
qed

theorem all_success_ready_witness:
  "is_ready two_arrivals ALL_SUCCESS (get_edges_to join_flow 4)
   \<and> \<not> is_ready one_arrival ALL_SUCCESS (get_edges_to join_flow 4)
   \<and> events (launch_phase join_flow sample_lib sample_env joined_state)
       = [StepStarted 500 4 ''set_state'']
   \<and> is_ready (join_trackers joined_state 4) ALL_SUCCESS (get_edges_to join_flow 4)"
proof -
  note T = all_success_ready [of two_arrivals "get_edges_to join_flow 4" join_flow sample_lib
      sample_env joined_state 1 "Some seeded_state"]
  note U = all_success_ready [of one_arrival "get_edges_to join_flow 4" join_flow sample_lib
      sample_env joined_state 1 "Some seeded_state"]
  have in4: "get_edges_to join_flow 4 = [default_edge 13 2 4, default_edge 14 3 4]"
    by code_simp
  have r1: "is_ready two_arrivals ALL_SUCCESS (get_edges_to join_flow 4)"
    unfolding T [THEN conjunct1]
    by (simp add: in4 two_arrivals_def default_edge_def ok_result_def)
  have r2: "\<not> is_ready one_arrival ALL_SUCCESS (get_edges_to join_flow 4)"
    unfolding U [THEN conjunct1]
    by (simp add: in4 one_arrival_def default_edge_def ok_result_def)
  have lp: "events (launch_phase join_flow sample_lib sample_env joined_state)
      = [StepStarted 500 4 ''set_state'']"
    by code_simp
  from T [THEN conjunct2, THEN conjunct2, THEN conjunct1]
  obtain new where n: "events (launch_phase join_flow sample_lib sample_env joined_state)
      = events joined_state @ new"
    and p: "\<forall>rid i ty step.
               StepStarted rid i ty \<in> set new \<and> get_step join_flow i = Some step
                 \<and> get_edges_to join_flow i \<noteq> [] \<and> join_mode step = ALL_SUCCESS
               \<longrightarrow> i \<in> set (pending joined_state)
                   \<and> is_ready (join_trackers joined_state i) ALL_SUCCESS (get_edges_to join_flow i)"
    by blast
  from n lp have new: "new = [StepStarted 500 4 ''set_state'']"
    by (simp add: joined_state_def)
  have g: "get_step join_flow 4 = Some (set_state_step 4 ALL_SUCCESS ''c'' ''{{a}}{{b}}'')"
    by code_simp
  have h: "StepStarted 500 4 ''set_state'' \<in> set new
      \<and> get_step join_flow 4 = Some (set_state_step 4 ALL_SUCCESS ''c'' ''{{a}}{{b}}'')
      \<and> get_edges_to join_flow 4 \<noteq> []
      \<and> join_mode (set_state_step 4 ALL_SUCCESS ''c'' ''{{a}}{{b}}'') = ALL_SUCCESS"
    using new g in4 by (simp add: set_state_step_def)
  from p [THEN spec, THEN spec, THEN spec, THEN spec, THEN mp, OF h]
  have "is_ready (join_trackers joined_state 4) ALL_SUCCESS (get_edges_to join_flow 4)"
    by simp
  with r1 r2 lp show ?thesis by simp
qed

subsection \<open>Events, results and the final status\<close>



















declare run_loop.simps [simp del]




subsection \<open>Runs of a flow without a cycle end\<close>

lemma sum_remove_le: "finite A \<Longrightarrow> sum W (A - {i}) + W i \<le> sum W A + W i" for W :: "uuid \<Rightarrow> nat"
  by (simp add: sum_mono2)






























section \<open>Validation of references: theorems\<close>

lemma steps_before_loop_set:
  "set queue \<subseteq> spec_upstream_ids flow t \<Longrightarrow> visited \<subseteq> spec_upstream_ids flow t
   \<Longrightarrow> (\<forall>j \<in> visited. \<forall>s. get_step flow j = Some s
          \<longrightarrow> source_step_id ` set (get_edges_to flow j) \<subseteq> visited \<union> set queue)
   \<Longrightarrow> source_step_id ` set (get_edges_to flow t) \<subseteq> visited \<union> set queue
   \<Longrightarrow> set result = {s. \<exists>j \<in> visited. get_step flow j = Some s}
   \<Longrightarrow> set (steps_before_loop flow queue visited result)
       = {s. \<exists>j \<in> spec_upstream_ids flow t. get_step flow j = Some s}"
proof (induction flow queue visited result rule: steps_before_loop.induct)
  case (1 flow visited result)
  have "j \<in> visited" if "j \<in> spec_upstream_ids flow t" for j
    using that
  proof (induction rule: spec_upstream_ids.induct)
    case (direct e)
    then have "source_step_id e \<in> source_step_id ` set (get_edges_to flow t)"
      by (simp add: get_edges_to_def)
    with "1.prems"(4) show ?case by auto
  next
    case (via j s e)
    then have "source_step_id e \<in> source_step_id ` set (get_edges_to flow j)"
      by (simp add: get_edges_to_def)
    with via "1.prems"(3) show ?case by auto
  qed
  with "1.prems"(2) have "visited = spec_upstream_ids flow t" by blast
  with "1.prems"(5) show ?case by simp
next
  case (2 flow i queue visited result)
  have iR: "i \<in> spec_upstream_ids flow t"
    using "2.prems"(1) by simp
  show ?case
  proof (cases "i \<in> visited")
    case True
    have "set (steps_before_loop flow queue visited result)
        = {s. \<exists>j \<in> spec_upstream_ids flow t. get_step flow j = Some s}"
    proof (rule "2.IH"(1) [OF True])
      show "set queue \<subseteq> spec_upstream_ids flow t" using "2.prems"(1) by simp
      show "visited \<subseteq> spec_upstream_ids flow t" by (rule "2.prems"(2))
      show "\<forall>j \<in> visited. \<forall>s. get_step flow j = Some s
          \<longrightarrow> source_step_id ` set (get_edges_to flow j) \<subseteq> visited \<union> set queue"
        using "2.prems"(3) True by auto
      show "source_step_id ` set (get_edges_to flow t) \<subseteq> visited \<union> set queue"
        using "2.prems"(4) True by auto
      show "set result = {s. \<exists>j \<in> visited. get_step flow j = Some s}"
        by (rule "2.prems"(5))
    qed
    with True show ?thesis by simp
  next
    case False
    show ?thesis
    proof (cases "get_step flow i")
      case None
      have "set (steps_before_loop flow queue (insert i visited) result)
          = {s. \<exists>j \<in> spec_upstream_ids flow t. get_step flow j = Some s}"
      proof (rule "2.IH"(2) [OF False None])
        show "set queue \<subseteq> spec_upstream_ids flow t" using "2.prems"(1) by simp
        show "insert i visited \<subseteq> spec_upstream_ids flow t"
          using "2.prems"(2) iR by simp
        show "\<forall>j \<in> insert i visited. \<forall>s. get_step flow j = Some s
            \<longrightarrow> source_step_id ` set (get_edges_to flow j) \<subseteq> insert i visited \<union> set queue"
          using "2.prems"(3) None by auto
        show "source_step_id ` set (get_edges_to flow t) \<subseteq> insert i visited \<union> set queue"
          using "2.prems"(4) by auto
        show "set result = {s. \<exists>j \<in> insert i visited. get_step flow j = Some s}"
          using "2.prems"(5) None by auto
      qed
      with False None show ?thesis by simp
    next
      case (Some up)
      let ?q = "queue @ map source_step_id (get_edges_to flow i)"
      have "set (steps_before_loop flow ?q (insert i visited) (result @ [up]))
          = {s. \<exists>j \<in> spec_upstream_ids flow t. get_step flow j = Some s}"
      proof (rule "2.IH"(3) [OF False Some])
        have "source_step_id e \<in> spec_upstream_ids flow t"
          if "e \<in> set (get_edges_to flow i)" for e
          using that iR Some
          by (auto simp: get_edges_to_def intro: spec_upstream_ids.via)
        then show "set ?q \<subseteq> spec_upstream_ids flow t"
          using "2.prems"(1) by auto
        show "insert i visited \<subseteq> spec_upstream_ids flow t"
          using "2.prems"(2) iR by simp
        show "\<forall>j \<in> insert i visited. \<forall>s. get_step flow j = Some s
            \<longrightarrow> source_step_id ` set (get_edges_to flow j) \<subseteq> insert i visited \<union> set ?q"
          using "2.prems"(3) by auto
        show "source_step_id ` set (get_edges_to flow t) \<subseteq> insert i visited \<union> set ?q"
          using "2.prems"(4) by auto
        show "set (result @ [up]) = {s. \<exists>j \<in> insert i visited. get_step flow j = Some s}"
          using "2.prems"(5) Some by auto
      qed
      with False Some show ?thesis by simp
    qed
  qed
qed

lemma steps_before_set: "set (steps_before flow step) = spec_upstream_steps flow step"
  unfolding steps_before_def spec_upstream_steps_def
proof (rule steps_before_loop_set)
  show "set (map source_step_id (get_edges_to flow (sid step))) \<subseteq> spec_upstream_ids flow (sid step)"
    by (auto simp: get_edges_to_def intro: spec_upstream_ids.direct)
qed simp_all

lemma add_upstream_keys_eq: "add_upstream_keys u keys = keys \<union> spec_step_keys u"
proof -
  have f: "fold insert xs K = K \<union> set xs" for xs :: "string list" and K
    by (induction xs arbitrary: K) auto
  show ?thesis
    by (auto simp: add_upstream_keys_def spec_step_keys_def Let_def f
        split: option.splits pyval.splits)
qed

lemma fold_add_upstream_keys:
  "fold add_upstream_keys us keys = keys \<union> (\<Union>u \<in> set us. spec_step_keys u)"
  by (induction us arbitrary: keys) (auto simp: add_upstream_keys_eq)

lemma available_before_eq:
  "get_available_keys_before flow step = (\<Union>u \<in> spec_upstream_steps flow step. spec_step_keys u)"
  by (simp add: get_available_keys_before_def fold_add_upstream_keys steps_before_set)

lemma available_keys_eq:
  "available_keys flow step
   = get_available_keys_before flow step \<union> (if is_trigger step then set (outputs step) else {})"
proof -
  have f: "fold insert xs K = K \<union> set xs" for xs :: "string list" and K
    by (induction xs arbitrary: K) auto
  show ?thesis by (simp add: available_keys_def f)
qed

lemma root_key_eq: "root_key ref = takeWhile (\<lambda>c. c \<noteq> CHR ''.'') ref"
proof -
  have "(case split_dot s of [] \<Rightarrow> [] | r # rs \<Rightarrow> r) = takeWhile (\<lambda>c. c \<noteq> CHR ''.'') s" for s
    by (induction s) (auto split: list.splits)
  then show ?thesis by (simp add: root_key_def)
qed

lemma validate_flow_findings:
  "f \<in> set (validate_flow lib flow)
   \<longleftrightarrow> (\<exists>step \<in> set (steps flow). \<exists>field_name ref.
          (field_name, ref) \<in> set (extract_refs lib (config step))
          \<and> root_key ref \<notin> available_keys flow step
          \<and> f = \<lparr> ve_step_id = sid step, ve_field = field_name, ve_reference = ref,
                  ve_message = [CHR 0x27] @ ref @ [CHR 0x27] @ '' not found. Available: ''
                                 @ repr_sorted lib (available_keys flow step),
                  ve_level = ''error'' \<rparr>)"
  by (auto simp: validate_flow_def step_findings_def)

text \<open>
  Claim C8 as stated fails for a set-state step whose configured key is the empty
  string: the step is upstream, but its key is not among the available keys, and a
  reference with the empty root is reported.
\<close>

theorem validate_flow_available_keys_counterexample:
  "steps_before empty_key_flow (set_state_step 3 NO_WAIT ''y'' ''{{.x}}'')
     = [set_state_step 2 NO_WAIT [] ''v'']
   \<and> stype (set_state_step 2 NO_WAIT [] ''v'') = SET_STATE
   \<and> model_attr (config (set_state_step 2 NO_WAIT [] ''v'')) ''key'' = Some (PStr [])
   \<and> [] \<notin> get_available_keys_before empty_key_flow (set_state_step 3 NO_WAIT ''y'' ''{{.x}}'')
   \<and> extract_refs sample_lib (config (set_state_step 3 NO_WAIT ''y'' ''{{.x}}'')) = [(''value'', ''.x'')]
   \<and> root_key ''.x'' = []
   \<and> map ve_reference (validate_flow sample_lib empty_key_flow) = [''.x'']"
  by code_simp

text \<open>
  Claim C8, amended. The available keys before a step are the union, over every
  upstream step (backward over incoming edges, whatever their ports), of its declared
  output keys and of its configured \<open>key\<close> when that is a non-empty string; for a
  trigger step its own declared outputs are added. The root of a reference is what
  stands before its first dot. The findings of \<open>validate_flow\<close> are exactly these: for
  every step of the flow and every reference of its configuration whose root is not
  among the available keys, one finding of level \<open>"error"\<close> with the id of the step,
  the field and the reference.
\<close>

theorem validate_flow_available_keys:
  "get_available_keys_before flow step
     = (\<Union>u \<in> spec_upstream_steps flow step. spec_step_keys u)
   \<and> available_keys flow step
       = get_available_keys_before flow step
           \<union> (if is_trigger step then set (outputs step) else {})
   \<and> root_key ref = takeWhile (\<lambda>c. c \<noteq> CHR ''.'') ref
   \<and> (f \<in> set (validate_flow lib flow)
        \<longleftrightarrow> (\<exists>s \<in> set (steps flow). \<exists>field_name r.
               (field_name, r) \<in> set (extract_refs lib (config s))
               \<and> root_key r \<notin> available_keys flow s
               \<and> f = \<lparr> ve_step_id = sid s, ve_field = field_name, ve_reference = r,
                       ve_message = [CHR 0x27] @ r @ [CHR 0x27] @ '' not found. Available: ''
                                      @ repr_sorted lib (available_keys flow s),
                       ve_level = ''error'' \<rparr>))"
  using available_before_eq [of flow step] available_keys_eq [of flow step]
    root_key_eq [of ref] validate_flow_findings [of f lib flow]
  by blast

theorem validate_flow_available_keys_witness:
  "2 \<in> spec_upstream_ids join_flow 4 \<and> 1 \<in> spec_upstream_ids join_flow 4
   \<and> (\<Union>u \<in> spec_upstream_steps join_flow (set_state_step 4 ALL_SUCCESS ''c'' ''{{a}}{{b}}'').
         spec_step_keys u)
       = {''a'', ''b'', ''body'', ''headers'', ''method'', ''query''}
   \<and> validate_flow sample_lib join_flow = []
   \<and> (''count'', ''body'') \<in> set (extract_refs sample_lib (config counter_step))
   \<and> root_key ''body'' \<notin> available_keys counter_flow counter_step
   \<and> \<lparr> ve_step_id = 5, ve_field = ''count'', ve_reference = ''body'',
         ve_message = [CHR 0x27] @ ''body'' @ [CHR 0x27] @ '' not found. Available: [...]'',
         ve_level = ''error'' \<rparr> \<in> set (validate_flow sample_lib counter_flow)"
proof -
  let ?c = "set_state_step 4 ALL_SUCCESS ''c'' ''{{a}}{{b}}''"
  let ?f = "\<lparr> ve_step_id = 5, ve_field = ''count'', ve_reference = ''body'',
         ve_message = [CHR 0x27] @ ''body'' @ [CHR 0x27] @ '' not found. Available: [...]'',
         ve_level = ''error'' \<rparr>"
  have e13: "default_edge 13 2 4 \<in> set (edges join_flow)"
    and e11: "default_edge 11 1 2 \<in> set (edges join_flow)"
    by (simp_all add: join_flow_def)
  have u2: "2 \<in> spec_upstream_ids join_flow 4"
    using spec_upstream_ids.direct [OF e13] by (simp add: default_edge_def)
  have g2: "get_step join_flow 2 = Some (set_state_step 2 NO_WAIT ''a'' ''1'')"
    by code_simp
  have u1: "1 \<in> spec_upstream_ids join_flow 4"
    using spec_upstream_ids.via [OF u2 g2 e11] by (simp add: default_edge_def)
  have k: "get_available_keys_before join_flow ?c
      = {''a'', ''b'', ''body'', ''headers'', ''method'', ''query''}"
    by code_simp
  have v: "validate_flow sample_lib join_flow = []"
    by code_simp
  have x: "(''count'', ''body'') \<in> set (extract_refs sample_lib (config counter_step))"
    by code_simp
  have n: "root_key ''body'' \<notin> available_keys counter_flow counter_step"
    by code_simp
  have c: "counter_step \<in> set (steps counter_flow)"
    by (simp add: counter_flow_def)
  have a: "repr_sorted sample_lib (available_keys counter_flow counter_step) = ''[...]''"
    by (simp add: sample_lib_def)
  have i5: "sid counter_step = 5"
    by (simp add: counter_step_def)
  note T = validate_flow_available_keys [of join_flow ?c "''body''" ?f sample_lib]
  note U = validate_flow_available_keys [of counter_flow counter_step "''body''" ?f sample_lib]
  from T [THEN conjunct1] k
  have k': "(\<Union>u \<in> spec_upstream_steps join_flow ?c. spec_step_keys u)
      = {''a'', ''b'', ''body'', ''headers'', ''method'', ''query''}"
    by simp
  have "\<exists>s \<in> set (steps counter_flow). \<exists>field_name r.
               (field_name, r) \<in> set (extract_refs sample_lib (config s))
               \<and> root_key r \<notin> available_keys counter_flow s
               \<and> ?f = \<lparr> ve_step_id = sid s, ve_field = field_name, ve_reference = r,
                       ve_message = [CHR 0x27] @ r @ [CHR 0x27] @ '' not found. Available: ''
                                      @ repr_sorted sample_lib (available_keys counter_flow s),
                       ve_level = ''error'' \<rparr>"
  proof (intro bexI exI conjI)
    show "counter_step \<in> set (steps counter_flow)" by (rule c)
    show "(''count'', ''body'') \<in> set (extract_refs sample_lib (config counter_step))" by (rule x)
    show "root_key ''body'' \<notin> available_keys counter_flow counter_step" by (rule n)
    show "?f = \<lparr> ve_step_id = sid counter_step, ve_field = ''count'', ve_reference = ''body'',
                       ve_message = [CHR 0x27] @ ''body'' @ [CHR 0x27] @ '' not found. Available: ''
                                      @ repr_sorted sample_lib (available_keys counter_flow counter_step),
                       ve_level = ''error'' \<rparr>"
      by (simp add: a i5)
  qed
  with U [THEN conjunct2, THEN conjunct2, THEN conjunct2]
  have m: "?f \<in> set (validate_flow sample_lib counter_flow)"
    by (rule iffD2)
  from u2 u1 k' v x n m show ?thesis by blast
qed

end
